theory Spec2Isabelle
  imports Main
begin

section \<open>The constructs the stacks declare\<close>

text \<open>
  The repository is an infrastructure program: three stack constructors
  (\<open>CoreStack\<close>, \<open>ScraperStack\<close>, \<open>NlpStack\<close>) that build queues, functions,
  schedule rules, metric filters, alarms and policy statements, and an application that
  instantiates them. Each construct is a value here, each constructor a function from its
  parameters to the constructs it creates, with the fields the source sets. Options no
  property below depends on (bucket settings, stack outputs, image build settings, the
  values of environment variables) are left out.
\<close>

subsection \<open>Durations, in seconds\<close>

definition Duration_seconds :: "nat \<Rightarrow> nat" where
  "Duration_seconds n = n"

definition Duration_minutes :: "nat \<Rightarrow> nat" where
  "Duration_minutes n = 60 * n"

definition Duration_hours :: "nat \<Rightarrow> nat" where
  "Duration_hours n = 3600 * n"

definition Duration_days :: "nat \<Rightarrow> nat" where
  "Duration_days n = 86400 * n"

subsection \<open>Queues\<close>

text \<open>
  \<open>new sqs.Queue(scope, id, props)\<close>: a field the source leaves out is \<open>None\<close>.
  A dead-letter queue is itself a queue, nested in the props of its source queue.
\<close>

datatype queue =
  Queue (construct_id: string) (queueName: "string option")
        (visibilityTimeout: "nat option") (retentionPeriod: "nat option")
        (deadLetterQueue: "dead_letter_queue option")
and dead_letter_queue =
  DeadLetterQueue (maxReceiveCount: nat) (queue: queue)

subsection \<open>Buckets, roles, policy statements\<close>

record bucket =
  bucketName :: string

datatype principal = ServicePrincipal string | RolePrincipal string

record role =
  role_id :: string
  assumedBy :: principal
  managedPolicies :: "string list"

datatype effect = ALLOW | DENY

text \<open>A resource is the ARN of a queue of the application, or an ARN pattern written out.\<close>

datatype resource = QueueArn string | ArnPattern string

record policy_statement =
  effect :: effect
  principals :: "principal list"
  actions :: "string list"
  resources :: "resource list"

definition queueArn :: "queue \<Rightarrow> resource" where
  "queueArn q = QueueArn (construct_id q)"

text \<open>
  \<open>queue.grantSendMessages(grantee)\<close> adds to the grantee's role an allow statement
  for sending to that queue. A statement attached to a role has no principals of its own.
  \<open>bucket.grantReadWrite(grantee)\<close> is recorded as the pair of the grantee's role and
  the bucket.
\<close>

definition grantSendMessages :: "queue \<Rightarrow> role \<Rightarrow> string \<times> policy_statement" where
  "grantSendMessages q grantee =
     (role_id grantee,
      \<lparr>effect = ALLOW, principals = [],
       actions = [''sqs:SendMessage'', ''sqs:GetQueueAttributes'', ''sqs:GetQueueUrl''],
       resources = [queueArn q]\<rparr>)"

definition grantReadWrite :: "bucket \<Rightarrow> role \<Rightarrow> string \<times> string" where
  "grantReadWrite b grantee = (role_id grantee, bucketName b)"

subsection \<open>Log groups, functions, event sources\<close>

record log_group =
  logGroupName :: string
  retention :: nat

definition ONE_MONTH :: nat where
  "ONE_MONTH = 30"

record docker_image_function =
  function_id :: string
  dockerfile :: string
  timeout :: nat
  memorySize :: nat
  environment :: "string list"
  function_role :: role
  logGroup :: log_group

text \<open>\<open>new SqsEventSource(queue, {batchSize})\<close>, attached to a function.\<close>

record sqs_event_source =
  source_queue :: queue
  batchSize :: nat
  consumer :: docker_image_function

subsection \<open>Schedule rules\<close>

datatype json = JString string | JObject "(string \<times> json) list"

record cron_options =
  minute :: "string option"
  hour :: "string option"
  day :: "string option"
  month :: "string option"
  year :: "string option"
  weekDay :: "string option"

record rule_target =
  target_queue :: queue
  message :: json

record rule =
  rule_id :: string
  schedule :: cron_options
  targets :: "rule_target list"

subsection \<open>Metric filters, metrics, alarms, topics\<close>

record metric_filter =
  filter_id :: string
  filter_logGroup :: log_group
  metricNamespace :: string
  filter_metricName :: string
  filterPattern :: string
  metricValue :: string

record metric =
  namespace :: string
  metricName :: string
  statistic :: string
  period :: nat

record topic =
  topic_id :: string
  subscriptions :: "string list"

datatype comparison_operator =
    GREATER_THAN_OR_EQUAL_TO_THRESHOLD
  | GREATER_THAN_THRESHOLD
  | LESS_THAN_THRESHOLD
  | LESS_THAN_OR_EQUAL_TO_THRESHOLD

record alarm =
  alarm_id :: string
  alarm_metric :: metric
  threshold :: nat
  evaluationPeriods :: nat
  comparisonOperator :: comparison_operator
  alarmDescription :: string
  alarmActions :: "topic list"

text \<open>\<open>fn.metricErrors(props)\<close>: the function's error count in the platform's namespace.\<close>

definition metricErrors :: "docker_image_function \<Rightarrow> nat \<Rightarrow> string \<Rightarrow> metric" where
  "metricErrors fn p st =
     \<lparr>namespace = ''AWS/Lambda'', metricName = ''Errors'', statistic = st, period = p\<rparr>"

section \<open>The stacks\<close>

text \<open>The environment of a stack: the account and region it is deployed to.\<close>

record env =
  account :: string
  region :: string

subsection \<open>\<open>CoreStack\<close> (\<open>src/cdk/core_stack.ts\<close>)\<close>

record core_stack =
  s3Bucket :: bucket
  s3ScraperBucket :: bucket
  generalLambdaRole :: role
  nlpSQSQueue :: queue
  core_bucketGrants :: "(string \<times> string) list"

definition nlpDLQ :: queue where
  "nlpDLQ = Queue ''nlpDLQ'' (Some ''nlpSQSQueue_DLQ'') None (Some (Duration_days 14)) None"

definition nlpQueue :: queue where
  "nlpQueue =
     Queue ''nlpSQSQueue'' None (Some (Duration_seconds (60 * 15))) None
       (Some (DeadLetterQueue 2 nlpDLQ))"

definition GeneralLambdaRole :: role where
  "GeneralLambdaRole =
     \<lparr>role_id = ''GeneralLambdaRole'',
      assumedBy = ServicePrincipal ''lambda.amazonaws.com'',
      managedPolicies = [''service-role/AWSLambdaBasicExecutionRole'']\<rparr>"

definition CoreStack :: "env \<Rightarrow> core_stack" where
  "CoreStack e =
     (let s3Bucket = \<lparr>bucketName = account e @ ''-bucket''\<rparr>;
          s3ScraperBucket = \<lparr>bucketName = account e @ ''-scraper-bucket''\<rparr>
      in \<lparr>s3Bucket = s3Bucket,
          s3ScraperBucket = s3ScraperBucket,
          generalLambdaRole = GeneralLambdaRole,
          nlpSQSQueue = nlpQueue,
          core_bucketGrants =
            [grantReadWrite s3Bucket GeneralLambdaRole,
             grantReadWrite s3ScraperBucket GeneralLambdaRole]\<rparr>)"

subsection \<open>\<open>ScraperStack\<close> (\<open>src/unnamed/part_001\<close>)\<close>

record scraper_stack =
  scraperSQSQueue :: queue
  scraperRule :: rule
  scraper_logGroup :: log_group
  scraper_metricFilters :: "metric_filter list"
  scraper_alarms :: "alarm list"
  scraperLambdaRole :: role
  scraper_lambdaFunction :: docker_image_function
  scraper_bucketGrants :: "(string \<times> string) list"
  scraper_rolePolicies :: "(string \<times> policy_statement) list"
  scraper_queuePolicies :: "(string \<times> policy_statement) list"
  scraper_eventSources :: "sqs_event_source list"

definition PolicyReduceScraperDLQ :: queue where
  "PolicyReduceScraperDLQ =
     Queue ''PolicyReduceScraperDLQ'' (Some ''PolicyReduceScraperQueue_DLQ'') None
       (Some (Duration_days 14)) None"

text \<open>
  The visibility timeout of the scraper queue is \<open>60 * 30\<close> seconds; the comment beside
  it in the source says 15 minutes, the value is 30.
\<close>

definition PolicyReduceScraperQueue :: queue where
  "PolicyReduceScraperQueue =
     Queue ''PolicyReduceScraperQueue'' (Some ''PolicyReduceScraperQueue'')
       (Some (Duration_seconds (60 * 30))) None
       (Some (DeadLetterQueue 5 PolicyReduceScraperDLQ))"

definition messagePayload :: json where
  "messagePayload = JObject [(''action'', JString ''e_ingest'')]"

definition PolicyReduceScraperRule :: rule where
  "PolicyReduceScraperRule =
     \<lparr>rule_id = ''PolicyReduceScraperRule'',
      schedule = \<lparr>minute = Some ''0'', hour = Some ''10'', day = None,
                  month = Some ''*'', year = Some ''*'', weekDay = None\<rparr>,
      targets = [\<lparr>target_queue = PolicyReduceScraperQueue, message = messagePayload\<rparr>]\<rparr>"

definition PolicyReduceScraperLogGroup :: log_group where
  "PolicyReduceScraperLogGroup =
     \<lparr>logGroupName = ''PolicyReduceScraperLogGroup'', retention = ONE_MONTH\<rparr>"

definition PolicyReduceErrorFilter :: metric_filter where
  "PolicyReduceErrorFilter =
     \<lparr>filter_id = ''PolicyReduceErrorFilter'',
      filter_logGroup = PolicyReduceScraperLogGroup,
      metricNamespace = ''PolicyReduce/Scraper'',
      filter_metricName = ''Error'',
      filterPattern = ''Error'',
      metricValue = ''1''\<rparr>"

definition PolicyReduceTotalRequeryErrorFilter :: metric_filter where
  "PolicyReduceTotalRequeryErrorFilter =
     \<lparr>filter_id = ''PolicyReduceTotalRequeryErrorFilter'',
      filter_logGroup = PolicyReduceScraperLogGroup,
      metricNamespace = ''PolicyReduce/Scraper'',
      filter_metricName = ''TotalRequeryError'',
      filterPattern = ''Logging error'',
      metricValue = ''1''\<rparr>"

definition PolicyReducePollCreationErrorFilter :: metric_filter where
  "PolicyReducePollCreationErrorFilter =
     \<lparr>filter_id = ''PolicyReducePollCreationErrorFilter'',
      filter_logGroup = PolicyReduceScraperLogGroup,
      metricNamespace = ''PolicyReduce/Scraper'',
      filter_metricName = ''PollCreationError'',
      filterPattern = ''Error creating eventbridge rule'',
      metricValue = ''1''\<rparr>"

text \<open>
  Every alarm of the application has the same shape: threshold 1 over one evaluation
  period, breaching at or above the threshold, and one alarm action, a topic with one
  e-mail subscription.
\<close>

definition alarm_with_topic :: "string \<Rightarrow> metric \<Rightarrow> string \<Rightarrow> string \<Rightarrow> alarm" where
  "alarm_with_topic aid m descr tid =
     \<lparr>alarm_id = aid, alarm_metric = m, threshold = 1, evaluationPeriods = 1,
      comparisonOperator = GREATER_THAN_OR_EQUAL_TO_THRESHOLD,
      alarmDescription = descr,
      alarmActions = [\<lparr>topic_id = tid, subscriptions = [''rahilv99@gmail.com'']\<rparr>]\<rparr>"

definition scraper_metric :: "string \<Rightarrow> metric" where
  "scraper_metric n =
     \<lparr>namespace = ''PolicyReduce/Scraper'', metricName = n, statistic = ''Sum'',
      period = Duration_hours 20\<rparr>"

definition ErrorAlarm :: alarm where
  "ErrorAlarm =
     alarm_with_topic ''PolicyReduceScraperErrorAlarm'' (scraper_metric ''Error'')
       ''Alarm when scraper unexpected error occurs'' ''PolicyReduceScraperErrorAlarmTopic''"

definition TotalRequeryErrorAlarm :: alarm where
  "TotalRequeryErrorAlarm =
     alarm_with_topic ''PolicyReduceTotalRequeryErrorAlarm''
       (scraper_metric ''TotalRequeryError'')
       ''Alarm when one or more error is found in the requery process''
       ''PolicyReduceTotalRequeryErrorTopic''"

definition PollCreationErrorAlarm :: alarm where
  "PollCreationErrorAlarm =
     alarm_with_topic ''PolicyReducePollCreationErrorAlarm''
       (scraper_metric ''PollCreationError'')
       ''Alarm when EventBridge rule creation fails''
       ''PolicyReducePollCreationErrorTopic''"

definition PolicyReduceScraperLambdaRole :: role where
  "PolicyReduceScraperLambdaRole =
     \<lparr>role_id = ''PolicyReduceScraperLambdaRole'',
      assumedBy = ServicePrincipal ''lambda.amazonaws.com'',
      managedPolicies = [''service-role/AWSLambdaBasicExecutionRole'']\<rparr>"

definition PolicyReduceScraperFunction :: docker_image_function where
  "PolicyReduceScraperFunction =
     \<lparr>function_id = ''PolicyReduceScraperFunction'',
      dockerfile = ''scraper-lambda/Dockerfile'',
      timeout = Duration_minutes 15,
      memorySize = 1024,
      environment = [''BUCKET_NAME'', ''SCRAPER_BUCKET_NAME'', ''SCRAPER_QUEUE_URL'',
                     ''NLP_QUEUE_URL'', ''CONGRESS_API_KEY'', ''DB_ACCESS_URL'',
                     ''DB_URI'', ''SCRAPER_QUEUE_ARN''],
      function_role = PolicyReduceScraperLambdaRole,
      logGroup = PolicyReduceScraperLogGroup\<rparr>"

definition ScraperLambdaFailureAlarm :: alarm where
  "ScraperLambdaFailureAlarm =
     alarm_with_topic ''PolicyReduceScraperLambdaFailureAlarm''
       (metricErrors PolicyReduceScraperFunction (Duration_hours 20) ''Sum'')
       ''Alarm when Scraper Lambda function fails''
       ''PolicyReduceScraperLambdaFailureAlarmTopic''"

definition ScraperStack :: "env \<Rightarrow> core_stack \<Rightarrow> scraper_stack" where
  "ScraperStack e coreStack =
     \<lparr>scraperSQSQueue = PolicyReduceScraperQueue,
      scraperRule = PolicyReduceScraperRule,
      scraper_logGroup = PolicyReduceScraperLogGroup,
      scraper_metricFilters =
        [PolicyReduceErrorFilter, PolicyReduceTotalRequeryErrorFilter,
         PolicyReducePollCreationErrorFilter],
      scraper_alarms =
        [ErrorAlarm, TotalRequeryErrorAlarm, PollCreationErrorAlarm,
         ScraperLambdaFailureAlarm],
      scraperLambdaRole = PolicyReduceScraperLambdaRole,
      scraper_lambdaFunction = PolicyReduceScraperFunction,
      scraper_bucketGrants =
        [grantReadWrite (s3Bucket coreStack) PolicyReduceScraperLambdaRole,
         grantReadWrite (s3ScraperBucket coreStack) PolicyReduceScraperLambdaRole],
      scraper_rolePolicies =
        [grantSendMessages PolicyReduceScraperQueue (function_role PolicyReduceScraperFunction),
         grantSendMessages (nlpSQSQueue coreStack) (function_role PolicyReduceScraperFunction)],
      scraper_queuePolicies =
        [(construct_id PolicyReduceScraperQueue,
          \<lparr>effect = ALLOW,
           principals = [ServicePrincipal ''events.amazonaws.com''],
           actions = [''sqs:SendMessage''],
           resources = [queueArn PolicyReduceScraperQueue]\<rparr>)],
      scraper_eventSources =
        [\<lparr>source_queue = PolicyReduceScraperQueue, batchSize = 1,
          consumer = PolicyReduceScraperFunction\<rparr>]\<rparr>"

subsection \<open>\<open>NlpStack\<close> (\<open>src/unnamed/part_000\<close>)\<close>

record nlp_stack =
  nlp_logGroup :: log_group
  nlp_lambdaFunction :: docker_image_function
  nlp_metricFilters :: "metric_filter list"
  nlp_alarms :: "alarm list"
  nlp_rolePolicies :: "(string \<times> policy_statement) list"
  nlp_queuePolicies :: "(string \<times> policy_statement) list"
  nlp_eventSources :: "sqs_event_source list"

definition PolicyReduceNlpLogGroup :: log_group where
  "PolicyReduceNlpLogGroup =
     \<lparr>logGroupName = ''PolicyReduceNlpLogGroup'', retention = ONE_MONTH\<rparr>"

definition eventBridgeRulePolicy :: "env \<Rightarrow> policy_statement" where
  "eventBridgeRulePolicy e =
     \<lparr>effect = ALLOW, principals = [],
      actions = [''events:PutRule'', ''events:DeleteRule'', ''events:PutTargets'',
                 ''events:RemoveTargets'', ''events:ListRules'',
                 ''events:ListTargetsByRule'', ''events:DescribeRule''],
      resources = [ArnPattern (''arn:aws:events:'' @ region e @ '':'' @ account e
                               @ '':rule/policy-reduce-batch-check-*'')]\<rparr>"

definition PolicyReduceNlpFunction :: "core_stack \<Rightarrow> docker_image_function" where
  "PolicyReduceNlpFunction coreStack =
     \<lparr>function_id = ''PolicyReduceNlpFunction'',
      dockerfile = ''nlp-lambda/Dockerfile'',
      timeout = Duration_minutes 15,
      memorySize = 2048,
      environment = [''BUCKET_NAME'', ''NLP_QUEUE_URL'', ''DB_URI'',
                     ''GOOGLE_API_KEY'', ''ANTHROPIC_API_KEY'', ''NLP_QUEUE_ARN''],
      function_role = generalLambdaRole coreStack,
      logGroup = PolicyReduceNlpLogGroup\<rparr>"

definition NlpLambdaFailureAlarm :: "core_stack \<Rightarrow> alarm" where
  "NlpLambdaFailureAlarm coreStack =
     alarm_with_topic ''PolicyReduceNlpLambdaFailureAlarm''
       (metricErrors (PolicyReduceNlpFunction coreStack) (Duration_hours 20) ''Sum'')
       ''Alarm when NLP Lambda function fails''
       ''PolicyReduceNlpLambdaFailureAlarmTopic''"

definition NlpStack :: "env \<Rightarrow> core_stack \<Rightarrow> nlp_stack" where
  "NlpStack e coreStack =
     (let lambdaFunction = PolicyReduceNlpFunction coreStack
      in \<lparr>nlp_logGroup = PolicyReduceNlpLogGroup,
          nlp_lambdaFunction = lambdaFunction,
          nlp_metricFilters = [],
          nlp_alarms = [NlpLambdaFailureAlarm coreStack],
          nlp_rolePolicies =
            [grantSendMessages (nlpSQSQueue coreStack) (function_role lambdaFunction),
             (role_id (function_role lambdaFunction), eventBridgeRulePolicy e)],
          nlp_queuePolicies =
            [(construct_id (nlpSQSQueue coreStack),
              \<lparr>effect = ALLOW,
               principals = [ServicePrincipal ''events.amazonaws.com''],
               actions = [''sqs:SendMessage''],
               resources = [queueArn (nlpSQSQueue coreStack)]\<rparr>)],
          nlp_eventSources =
            [\<lparr>source_queue = nlpSQSQueue coreStack, batchSize = 1,
              consumer = lambdaFunction\<rparr>]\<rparr>)"

subsection \<open>The application (\<open>src/cdk/policy-reduce-app.ts\<close>)\<close>

record app =
  coreStack :: core_stack
  scraperStack :: scraper_stack
  nlpStack :: nlp_stack

definition policy_reduce_app :: "env \<Rightarrow> app" where
  "policy_reduce_app e =
     (let coreStack = CoreStack e
      in \<lparr>coreStack = coreStack,
          scraperStack = ScraperStack e coreStack,
          nlpStack = NlpStack e coreStack\<rparr>)"

section \<open>The queue service\<close>

text \<open>
  Modelled from the spec: the operations of a queue (enqueue, receive, acknowledge) and its
  redelivery algorithm belong to the managed queue service, which the stacks only declare
  and configure; no source file implements them. The definitions follow sections 3, 4.1 and
  9 of the spec, and take \<open>visibility_timeout\<close> and \<open>max_receive_count\<close> from the
  declared queue.

  Time is a number of seconds. The lease of a message has elapsed, and the message is
  visible, when its deadline is not after the current time. A receipt handle is the pair of
  the message's id and its delivery count at that delivery: the id is stable, the count
  changes with each delivery.
\<close>

record message =
  message_id :: nat
  payload :: json
  enqueue_time :: nat
  delivery_count :: nat
  visibility_deadline :: nat

record queue_state =
  messages :: "message list"
  dead_letters :: "message list"
  next_id :: nat

definition empty_queue :: queue_state where
  "empty_queue = \<lparr>messages = [], dead_letters = [], next_id = 0\<rparr>"

text \<open>A queue declared without a visibility timeout gets the service's default.\<close>

definition visibility_timeout :: "queue \<Rightarrow> nat" where
  "visibility_timeout q = (case visibilityTimeout q of Some t \<Rightarrow> t | None \<Rightarrow> 30)"

definition max_receive_count :: "queue \<Rightarrow> nat option" where
  "max_receive_count q = map_option maxReceiveCount (deadLetterQueue q)"

definition visible :: "nat \<Rightarrow> message \<Rightarrow> bool" where
  "visible now m \<longleftrightarrow> visibility_deadline m \<le> now"

definition exceeds :: "queue \<Rightarrow> message \<Rightarrow> bool" where
  "exceeds q m \<longleftrightarrow>
     (case max_receive_count q of None \<Rightarrow> False | Some n \<Rightarrow> n < delivery_count m)"

definition enqueue :: "nat \<Rightarrow> json \<Rightarrow> queue_state \<Rightarrow> nat \<times> queue_state" where
  "enqueue now p s =
     (next_id s,
      s\<lparr>messages := messages s @
           [\<lparr>message_id = next_id s, payload = p, enqueue_time = now,
             delivery_count = 0, visibility_deadline = now\<rparr>],
        next_id := next_id s + 1\<rparr>)"

text \<open>A receive that picks a message counts one more delivery of it.\<close>

definition attempt :: "message \<Rightarrow> message" where
  "attempt m = m\<lparr>delivery_count := delivery_count m + 1\<rparr>"

text \<open>
  Dead-letter relocation: the message leaves the source queue and is appended to the
  dead-letter queue; relocating a message that is already there changes nothing.
\<close>

definition relocate :: "message \<Rightarrow> queue_state \<Rightarrow> queue_state" where
  "relocate m s =
     (if message_id m \<in> message_id ` set (dead_letters s) then s
      else s\<lparr>messages := filter (\<lambda>x. message_id x \<noteq> message_id m) (messages s),
             dead_letters := dead_letters s @ [m]\<rparr>)"

definition lease :: "message \<Rightarrow> queue_state \<Rightarrow> queue_state" where
  "lease m s =
     s\<lparr>messages := map (\<lambda>x. if message_id x = message_id m then m else x) (messages s)\<rparr>"

text \<open>
  \<open>receive\<close> goes through the messages in queue order while the batch has room. A
  visible message is counted as delivered once more; when the count then exceeds
  \<open>max_receive_count\<close> it is relocated instead of returned (scenario 1 of the spec: with
  a budget of 2, the third receive returns nothing and the message is in the dead-letter
  queue), otherwise it is returned and invisible for \<open>visibility_timeout\<close> from now.
\<close>

fun receive_each ::
  "queue \<Rightarrow> nat \<Rightarrow> nat \<Rightarrow> message list \<Rightarrow> queue_state \<Rightarrow> message list \<times> queue_state" where
  "receive_each q now k [] s = ([], s)"
| "receive_each q now k (m # ms) s =
     (if k = 0 \<or> \<not> visible now m then receive_each q now k ms s
      else if exceeds q (attempt m) then receive_each q now k ms (relocate (attempt m) s)
      else
        (let m' = (attempt m)\<lparr>visibility_deadline := now + visibility_timeout q\<rparr>;
             (batch, s') = receive_each q now (k - 1) ms (lease m' s)
         in (m' # batch, s')))"

definition receive :: "queue \<Rightarrow> nat \<Rightarrow> nat \<Rightarrow> queue_state \<Rightarrow> message list \<times> queue_state" where
  "receive q now max_batch s = receive_each q now max_batch (messages s) s"

text \<open>
  \<open>acknowledge\<close> removes the message the receipt handle names; a handle whose count is
  no longer the message's (the message was leased again since) names nothing, and the call
  does nothing.
\<close>

definition acknowledge :: "nat \<Rightarrow> nat \<Rightarrow> queue_state \<Rightarrow> queue_state" where
  "acknowledge mid receipt s =
     s\<lparr>messages :=
         filter (\<lambda>m. \<not> (message_id m = mid \<and> delivery_count m = receipt)) (messages s)\<rparr>"

text \<open>The calls a queue can get, and a history of them applied in order.\<close>

datatype operation = Enqueue nat json | Receive nat nat | Acknowledge nat nat

fun step :: "queue \<Rightarrow> operation \<Rightarrow> queue_state \<Rightarrow> queue_state" where
  "step q (Enqueue now p) s = snd (enqueue now p s)"
| "step q (Receive now max_batch) s = snd (receive q now max_batch s)"
| "step q (Acknowledge mid receipt) s = acknowledge mid receipt s"

definition run :: "queue \<Rightarrow> operation list \<Rightarrow> queue_state \<Rightarrow> queue_state" where
  "run q ops s = fold (step q) ops s"

text \<open>
  The event source of a function polls its queue with its batch size and hands the batch
  to the function.
\<close>

definition dispatch :: "sqs_event_source \<Rightarrow> nat \<Rightarrow> queue_state \<Rightarrow> message list \<times> queue_state" where
  "dispatch es now s = receive (source_queue es) now (batchSize es) s"

text \<open>
  A message that is received and never acknowledged: \<open>n\<close> receives of one message each,
  the first at \<open>now\<close> and each next one at the instant the lease of the previous one
  elapses. The result lists how many messages each receive returned.
\<close>

fun redeliver :: "queue \<Rightarrow> nat \<Rightarrow> nat \<Rightarrow> queue_state \<Rightarrow> nat list \<times> queue_state" where
  "redeliver q now 0 s = ([], s)"
| "redeliver q now (Suc n) s =
     (let (batch, s') = receive q now 1 s;
          (returned, s'') = redeliver q (now + visibility_timeout q) n s'
      in (length batch # returned, s''))"






text \<open>
  The states a queue can be in: no message of the source queue has exceeded the budget,
  every dead letter has, ids are below the next id and name one message each.
\<close>

definition well_formed :: "queue \<Rightarrow> queue_state \<Rightarrow> bool" where
  "well_formed q s \<longleftrightarrow>
     (\<forall>m\<in>set (messages s). \<not> exceeds q m) \<and>
     (\<forall>m\<in>set (dead_letters s). exceeds q m) \<and>
     (\<forall>m\<in>set (messages s @ dead_letters s). message_id m < next_id s) \<and>
     distinct (map message_id (messages s @ dead_letters s))"

section \<open>The scheduler\<close>

text \<open>
  Modelled from the spec: evaluating a schedule and firing a rule are the event service's.
  A field of the cron expression that is left out or is a wildcard matches every value, a
  number matches itself; a rule that fires enqueues the message of each of its targets into
  that target's queue (section 4.2 of the spec).
\<close>

record instant =
  i_year :: nat
  i_month :: nat
  i_day :: nat
  i_weekDay :: nat
  i_hour :: nat
  i_minute :: nat

definition digit :: "char \<Rightarrow> nat option" where
  "digit c = (let n = (of_char c :: nat) in if 48 \<le> n \<and> n \<le> 57 then Some (n - 48) else None)"

fun decimal_from :: "nat \<Rightarrow> string \<Rightarrow> nat option" where
  "decimal_from acc [] = Some acc"
| "decimal_from acc (c # cs) =
     (case digit c of None \<Rightarrow> None | Some d \<Rightarrow> decimal_from (10 * acc + d) cs)"

definition decimal :: "string \<Rightarrow> nat option" where
  "decimal s = (if s = [] then None else decimal_from 0 s)"

definition cron_field :: "string option \<Rightarrow> nat \<Rightarrow> bool" where
  "cron_field f n \<longleftrightarrow>
     (case f of None \<Rightarrow> True | Some x \<Rightarrow> x = ''*'' \<or> x = ''?'' \<or> decimal x = Some n)"

definition cron_matches :: "cron_options \<Rightarrow> instant \<Rightarrow> bool" where
  "cron_matches c t \<longleftrightarrow>
     cron_field (minute c) (i_minute t) \<and> cron_field (hour c) (i_hour t) \<and>
     cron_field (day c) (i_day t) \<and> cron_field (month c) (i_month t) \<and>
     cron_field (year c) (i_year t) \<and> cron_field (weekDay c) (i_weekDay t)"

definition fire :: "rule \<Rightarrow> nat \<Rightarrow> queue \<Rightarrow> queue_state \<Rightarrow> queue_state" where
  "fire r now q s =
     fold (\<lambda>t s. snd (enqueue now (message t) s)) (filter (\<lambda>t. target_queue t = q) (targets r)) s"

definition scheduler :: "rule \<Rightarrow> instant \<Rightarrow> nat \<Rightarrow> queue \<Rightarrow> queue_state \<Rightarrow> queue_state" where
  "scheduler r t now q s = (if cron_matches (schedule r) t then fire r now q s else s)"

section \<open>The alerting sink\<close>

text \<open>
  Modelled from the spec: matching log lines against filter patterns, aggregating the
  metric and evaluating alarms are the monitoring service's. Following sections 3, 4.5, 6
  and 9 of the spec, a pattern matches a line that contains it as a substring; a matched
  line adds the filter's metric value to the filter's metric; an alarm is a two-state
  machine over the windowed aggregates that notifies the subscribers of its actions on the
  transition from \<open>OK\<close> to \<open>ALARM\<close> only.
\<close>

fun starts_with :: "string \<Rightarrow> string \<Rightarrow> bool" where
  "starts_with [] s = True"
| "starts_with (c # p) [] = False"
| "starts_with (c # p) (d # s) = (c = d \<and> starts_with p s)"

fun contains :: "string \<Rightarrow> string \<Rightarrow> bool" where
  "contains p [] = (p = [])"
| "contains p (d # s) = (starts_with p (d # s) \<or> contains p s)"

definition emit :: "metric_filter list \<Rightarrow> log_group \<Rightarrow> string \<Rightarrow> (string \<times> string \<times> nat) list" where
  "emit fs g line =
     concat (map (\<lambda>f. case decimal (metricValue f) of
                          None \<Rightarrow> []
                        | Some v \<Rightarrow> [(metricNamespace f, filter_metricName f, v)])
                 (filter (\<lambda>f. filter_logGroup f = g \<and> contains (filterPattern f) line) fs))"

datatype alarm_state = OK | ALARM

definition breaching :: "alarm \<Rightarrow> nat \<Rightarrow> bool" where
  "breaching a v \<longleftrightarrow>
     (case comparisonOperator a of
        GREATER_THAN_OR_EQUAL_TO_THRESHOLD \<Rightarrow> threshold a \<le> v
      | GREATER_THAN_THRESHOLD \<Rightarrow> threshold a < v
      | LESS_THAN_THRESHOLD \<Rightarrow> v < threshold a
      | LESS_THAN_OR_EQUAL_TO_THRESHOLD \<Rightarrow> v \<le> threshold a)"

definition notifications :: "alarm \<Rightarrow> (string \<times> string) list" where
  "notifications a =
     concat (map (\<lambda>t. map (\<lambda>address. (topic_id t, address)) (subscriptions t)) (alarmActions a))"

definition evaluate :: "alarm \<Rightarrow> alarm_state \<Rightarrow> nat \<Rightarrow> alarm_state \<times> (string \<times> string) list" where
  "evaluate a st v =
     (let st' = (if breaching a v then ALARM else OK)
      in (st', if st = OK \<and> st' = ALARM then notifications a else []))"

text \<open>The alarm over successive windows: the state after each, and what each dispatched.\<close>

fun observe :: "alarm \<Rightarrow> alarm_state \<Rightarrow> nat list \<Rightarrow> (alarm_state \<times> (string \<times> string) list) list" where
  "observe a st [] = []"
| "observe a st (v # vs) = (let r = evaluate a st v in r # observe a (fst r) vs)"

section \<open>Permissions\<close>

text \<open>
  The platform evaluates the declared statements; the repository only declares them. A
  statement allows an action on a resource when its effect is \<open>ALLOW\<close> and one of its
  actions and one of its resources match, where the wildcard \<open>*\<close> in a declared action
  or resource stands for any run of characters.
\<close>

fun glob_match :: "string \<Rightarrow> string \<Rightarrow> bool" where
  "glob_match [] s = (s = [])"
| "glob_match (c # p) [] = (c = CHR ''*'' \<and> glob_match p [])"
| "glob_match (c # p) (d # s) =
     (if c = CHR ''*'' then glob_match p (d # s) \<or> glob_match (c # p) s
      else c = d \<and> glob_match p s)"

fun resource_matches :: "resource \<Rightarrow> resource \<Rightarrow> bool" where
  "resource_matches (QueueArn a) (QueueArn b) = (a = b)"
| "resource_matches (ArnPattern p) (ArnPattern s) = glob_match p s"
| "resource_matches _ _ = False"

definition statement_allows :: "policy_statement \<Rightarrow> string \<Rightarrow> resource \<Rightarrow> bool" where
  "statement_allows st action res \<longleftrightarrow>
     effect st = ALLOW \<and> list_ex (\<lambda>a. glob_match a action) (actions st) \<and>
     list_ex (\<lambda>r. resource_matches r res) (resources st)"

text \<open>A role may do what a statement attached to it allows.\<close>

definition role_may :: "(string \<times> policy_statement) list \<Rightarrow> role \<Rightarrow> string \<Rightarrow> resource \<Rightarrow> bool" where
  "role_may pols r action res \<longleftrightarrow>
     list_ex (\<lambda>(rid, st). rid = role_id r \<and> statement_allows st action res) pols"

text \<open>A principal may do to a queue what a statement of the queue's own policy allows it.\<close>

definition principal_may ::
  "(string \<times> policy_statement) list \<Rightarrow> principal \<Rightarrow> string \<Rightarrow> queue \<Rightarrow> bool" where
  "principal_may pols pr action q \<longleftrightarrow>
     list_ex (\<lambda>(qid, st). qid = construct_id q \<and> pr \<in> set (principals st) \<and>
                          statement_allows st action (queueArn q)) pols"

text \<open>The policies, event sources, filters and alarms of the whole application.\<close>

definition rolePolicies :: "app \<Rightarrow> (string \<times> policy_statement) list" where
  "rolePolicies a =
     scraper_rolePolicies (scraperStack a) @ nlp_rolePolicies (nlpStack a)"

definition queuePolicies :: "app \<Rightarrow> (string \<times> policy_statement) list" where
  "queuePolicies a = scraper_queuePolicies (scraperStack a) @ nlp_queuePolicies (nlpStack a)"

definition eventSources :: "app \<Rightarrow> sqs_event_source list" where
  "eventSources a = scraper_eventSources (scraperStack a) @ nlp_eventSources (nlpStack a)"

definition metricFilters :: "app \<Rightarrow> metric_filter list" where
  "metricFilters a = scraper_metricFilters (scraperStack a) @ nlp_metricFilters (nlpStack a)"

definition alarms :: "app \<Rightarrow> alarm list" where
  "alarms a = scraper_alarms (scraperStack a) @ nlp_alarms (nlpStack a)"

definition rules :: "app \<Rightarrow> rule list" where
  "rules a = [scraperRule (scraperStack a)]"

text \<open>The two work queues, and the dead-letter queue of each.\<close>

definition workQueues :: "app \<Rightarrow> queue list" where
  "workQueues a = [scraperSQSQueue (scraperStack a), nlpSQSQueue (coreStack a)]"

definition deadLetterQueues :: "app \<Rightarrow> queue list" where
  "deadLetterQueues a =
     concat (map (\<lambda>q. case deadLetterQueue q of None \<Rightarrow> [] | Some d \<Rightarrow> [queue d]) (workQueues a))"

section \<open>Properties of the queue service\<close>

subsection \<open>Every call keeps the queue well formed\<close>

lemma well_formed_empty: "well_formed q empty_queue"
  by (simp add: well_formed_def empty_queue_def)

lemma well_formed_enqueue:
  assumes "well_formed q s"
  shows "well_formed q (snd (enqueue now p s))"
proof -
  let ?new = "\<lparr>message_id = next_id s, payload = p, enqueue_time = now,
               delivery_count = 0, visibility_deadline = now\<rparr>"
  have m: "messages (snd (enqueue now p s)) = messages s @ [?new]"
    and d: "dead_letters (snd (enqueue now p s)) = dead_letters s"
    and n: "next_id (snd (enqueue now p s)) = Suc (next_id s)"
    by (simp_all add: enqueue_def)
  have fresh: "\<not> exceeds q ?new"
    by (simp add: exceeds_def split: option.splits)
  have below: "\<forall>x\<in>set (messages s) \<union> set (dead_letters s). message_id x < next_id s"
    using assms by (simp add: well_formed_def)
  then have notin: "next_id s \<notin> message_id ` (set (messages s) \<union> set (dead_letters s))"
    by auto
  have a: "\<forall>x\<in>set (messages s @ [?new]). \<not> exceeds q x"
    using assms fresh by (simp add: well_formed_def)
  have b: "\<forall>x\<in>set (dead_letters s). exceeds q x"
    using assms by (simp add: well_formed_def)
  have c: "\<forall>x\<in>set ((messages s @ [?new]) @ dead_letters s). message_id x < Suc (next_id s)"
    using below by (auto simp: less_Suc_eq)
  have d': "distinct (map message_id ((messages s @ [?new]) @ dead_letters s))"
    using assms notin by (auto simp: well_formed_def)
  show ?thesis
    unfolding well_formed_def m d n using a b c d' by blast
qed

lemma next_id_relocate: "next_id (relocate m s) = next_id s"
  by (simp add: relocate_def)

lemma next_id_lease: "next_id (lease m s) = next_id s"
  by (simp add: lease_def)

lemma ids_lease: "map message_id (messages (lease m s)) = map message_id (messages s)"
  by (simp add: lease_def comp_def cong: map_cong)

lemma well_formed_relocate:
  assumes "well_formed q s" and "exceeds q m" and "message_id m < next_id s"
  shows "well_formed q (relocate m s)"
proof (cases "message_id m \<in> message_id ` set (dead_letters s)")
  case True
  then show ?thesis using assms(1) by (simp add: relocate_def)
next
  case False
  let ?keep = "filter (\<lambda>x. message_id x \<noteq> message_id m) (messages s)"
  have m: "messages (relocate m s) = ?keep"
    and d: "dead_letters (relocate m s) = dead_letters s @ [m]"
    and n: "next_id (relocate m s) = next_id s"
    using False by (simp_all add: relocate_def)
  have sub: "set ?keep \<subseteq> set (messages s)" by auto
  have a: "\<forall>x\<in>set ?keep. \<not> exceeds q x"
    using assms(1) by (simp add: well_formed_def)
  have b: "\<forall>x\<in>set (dead_letters s @ [m]). exceeds q x"
    using assms(1,2) by (simp add: well_formed_def)
  have c: "\<forall>x\<in>set (?keep @ dead_letters s @ [m]). message_id x < next_id s"
    using assms(1,3) by (auto simp: well_formed_def)
  have "message_id m \<notin> message_id ` set ?keep" by auto
  moreover have "distinct (map message_id ?keep)"
    using assms(1) by (simp add: well_formed_def distinct_map_filter)
  moreover have "message_id ` set ?keep \<inter> message_id ` set (dead_letters s) = {}"
    using assms(1) sub by (auto simp: well_formed_def)
  ultimately have d': "distinct (map message_id (?keep @ dead_letters s @ [m]))"
    using assms(1) False by (auto simp: well_formed_def)
  show ?thesis
    unfolding well_formed_def m d n using a b c d' by blast
qed

lemma well_formed_lease:
  assumes "well_formed q s" and "\<not> exceeds q m"
  shows "well_formed q (lease m s)"
proof -
  have sub: "set (messages (lease m s)) \<subseteq> insert m (set (messages s))"
    by (auto simp: lease_def)
  have dl: "dead_letters (lease m s) = dead_letters s"
    by (simp add: lease_def)
  have a: "\<forall>x\<in>set (messages (lease m s)). \<not> exceeds q x"
    using sub assms by (auto simp: well_formed_def)
  have b: "\<forall>x\<in>set (dead_letters (lease m s)). exceeds q x"
    using dl assms by (simp add: well_formed_def)
  have c: "\<forall>x\<in>set (messages (lease m s) @ dead_letters (lease m s)).
             message_id x < next_id (lease m s)"
  proof
    fix x assume "x \<in> set (messages (lease m s) @ dead_letters (lease m s))"
    then have "message_id x \<in> set (map message_id (messages (lease m s)))
               \<or> x \<in> set (dead_letters s)"
      using dl by auto
    then have "message_id x \<in> message_id ` set (messages s) \<or> x \<in> set (dead_letters s)"
      unfolding ids_lease by simp
    then show "message_id x < next_id (lease m s)"
      using assms(1) by (auto simp: well_formed_def next_id_lease)
  qed
  have d: "distinct (map message_id (messages (lease m s) @ dead_letters (lease m s)))"
    using assms(1) by (simp add: well_formed_def ids_lease dl)
  show ?thesis
    unfolding well_formed_def using a b c d by blast
qed

lemma well_formed_receive_each:
  assumes "well_formed q s" and "\<forall>m\<in>set ms. message_id m < next_id s"
  shows "well_formed q (snd (receive_each q now k ms s))"
  using assms
proof (induction ms arbitrary: k s)
  case Nil
  then show ?case by simp
next
  case (Cons m ms)
  let ?m' = "(attempt m)\<lparr>visibility_deadline := now + visibility_timeout q\<rparr>"
  have idm: "message_id (attempt m) < next_id s"
    using Cons.prems(2) by (simp add: attempt_def)
  have rest: "\<forall>x\<in>set ms. message_id x < next_id s"
    using Cons.prems(2) by simp
  show ?case
  proof (cases "k = 0 \<or> \<not> visible now m")
    case True
    then show ?thesis using Cons.IH [OF Cons.prems(1) rest] by auto
  next
    case False
    show ?thesis
    proof (cases "exceeds q (attempt m)")
      case True
      have "well_formed q (relocate (attempt m) s)"
        using well_formed_relocate [OF Cons.prems(1) True idm] .
      then have "well_formed q (snd (receive_each q now k ms (relocate (attempt m) s)))"
        using Cons.IH rest by (simp add: next_id_relocate)
      then show ?thesis using False True by simp
    next
      case nex: False
      have "\<not> exceeds q ?m'" using nex by (simp add: exceeds_def attempt_def split: option.splits)
      then have "well_formed q (lease ?m' s)"
        using well_formed_lease [OF Cons.prems(1)] by blast
      then have "well_formed q (snd (receive_each q now (k - 1) ms (lease ?m' s)))"
        using Cons.IH rest by (simp add: next_id_lease)
      then show ?thesis using False nex by (auto simp: Let_def split: prod.splits)
    qed
  qed
qed


lemma well_formed_receive:
  "well_formed q s \<Longrightarrow> well_formed q (snd (receive q now k s))"
  unfolding receive_def
  by (rule well_formed_receive_each) (simp_all add: well_formed_def)

lemma well_formed_acknowledge:
  assumes "well_formed q s"
  shows "well_formed q (acknowledge mid r s)"
proof -
  let ?P = "\<lambda>m. \<not> (message_id m = mid \<and> delivery_count m = r)"
  have m: "messages (acknowledge mid r s) = filter ?P (messages s)"
    and d: "dead_letters (acknowledge mid r s) = dead_letters s"
    and n: "next_id (acknowledge mid r s) = next_id s"
    by (simp_all add: acknowledge_def)
  have sub: "set (filter ?P (messages s)) \<subseteq> set (messages s)" by auto
  have dist: "distinct (map message_id (filter ?P (messages s) @ dead_letters s))"
    using assms sub by (auto simp: well_formed_def distinct_map_filter)
  show ?thesis
    unfolding well_formed_def m d n
    using assms sub dist unfolding well_formed_def by auto
qed

lemma well_formed_step: "well_formed q s \<Longrightarrow> well_formed q (step q op s)"
  by (cases op) (simp_all add: well_formed_enqueue well_formed_receive well_formed_acknowledge)

lemma well_formed_run: "well_formed q s \<Longrightarrow> well_formed q (run q ops s)"
  unfolding run_def by (induction ops arbitrary: s) (simp_all add: well_formed_step)

subsection \<open>What a receive returns and relocates\<close>

lemma attempt_simps [simp]:
  "message_id (attempt m) = message_id m"
  "payload (attempt m) = payload m"
  "enqueue_time (attempt m) = enqueue_time m"
  "delivery_count (attempt m) = Suc (delivery_count m)"
  "visibility_deadline (attempt m) = visibility_deadline m"
  by (simp_all add: attempt_def)

lemma length_receive_each: "length (fst (receive_each q now k ms s)) \<le> k"
proof (induction ms arbitrary: k s)
  case Nil
  then show ?case by simp
next
  case (Cons m ms)
  let ?m' = "(attempt m)\<lparr>visibility_deadline := now + visibility_timeout q\<rparr>"
  have "length (fst (receive_each q now (k - 1) ms (lease ?m' s))) \<le> k - 1"
    by (rule Cons.IH)
  then have "0 < k \<Longrightarrow> Suc (length (fst (receive_each q now (k - 1) ms (lease ?m' s)))) \<le> k"
    by arith
  then show ?case
    using Cons.IH [of k s] Cons.IH [of k "relocate (attempt m) s"]
    by (auto simp: Let_def split: prod.splits)
qed

lemma batch_receive_each:
  assumes "x \<in> set (fst (receive_each q now k ms s))"
  shows "\<not> exceeds q x \<and> visibility_deadline x = now + visibility_timeout q
         \<and> (\<exists>m\<in>set ms. visible now m \<and> x = (attempt m)\<lparr>visibility_deadline := now + visibility_timeout q\<rparr>)"
  using assms
proof (induction ms arbitrary: k s)
  case Nil
  then show ?case by simp
next
  case (Cons m ms)
  show ?case
  proof (cases "k = 0 \<or> \<not> visible now m")
    case True
    then have "x \<in> set (fst (receive_each q now k ms s))"
      using Cons.prems by auto
    then show ?thesis using Cons.IH by auto
  next
    case False
    show ?thesis
    proof (cases "exceeds q (attempt m)")
      case True
      then have "x \<in> set (fst (receive_each q now k ms (relocate (attempt m) s)))"
        using Cons.prems False by auto
      then show ?thesis using Cons.IH by auto
    next
      case nex: False
      let ?m' = "(attempt m)\<lparr>visibility_deadline := now + visibility_timeout q\<rparr>"
      have "x = ?m' \<or> x \<in> set (fst (receive_each q now (k - 1) ms (lease ?m' s)))"
        using Cons.prems False nex by (auto simp: Let_def split: prod.splits)
      then show ?thesis
      proof
        assume "x = ?m'"
        moreover have "\<not> exceeds q ?m'"
          using nex by (simp add: exceeds_def attempt_def split: option.splits)
        ultimately show ?thesis using False by auto
      next
        assume "x \<in> set (fst (receive_each q now (k - 1) ms (lease ?m' s)))"
        then show ?thesis using Cons.IH by auto
      qed
    qed
  qed
qed

lemma dead_letters_relocate: "\<exists>xs. dead_letters (relocate m s) = dead_letters s @ xs"
  by (simp add: relocate_def)

lemma dead_letters_lease: "dead_letters (lease m s) = dead_letters s"
  by (simp add: lease_def)

lemma dead_letters_receive_each:
  "\<exists>xs. dead_letters (snd (receive_each q now k ms s)) = dead_letters s @ xs"
proof (induction ms arbitrary: k s)
  case Nil
  then show ?case by simp
next
  case (Cons m ms)
  let ?m' = "(attempt m)\<lparr>visibility_deadline := now + visibility_timeout q\<rparr>"
  obtain xs where xs: "dead_letters (relocate (attempt m) s) = dead_letters s @ xs"
    using dead_letters_relocate by blast
  obtain ys where ys: "dead_letters (snd (receive_each q now k ms (relocate (attempt m) s)))
      = dead_letters (relocate (attempt m) s) @ ys"
    using Cons.IH by blast
  have a: "\<exists>zs. dead_letters (snd (receive_each q now k ms (relocate (attempt m) s)))
      = dead_letters s @ zs"
    using xs ys by simp
  have b: "\<exists>zs. dead_letters (snd (receive_each q now (k - 1) ms (lease ?m' s)))
      = dead_letters s @ zs"
    using Cons.IH [of "k - 1" "lease ?m' s"] by (simp add: dead_letters_lease)
  show ?case
    using a b Cons.IH [of k s] by (auto simp: Let_def split: prod.splits)
qed

lemma dead_letters_step: "\<exists>xs. dead_letters (step q op s) = dead_letters s @ xs"
  by (cases op) (simp_all add: enqueue_def receive_def acknowledge_def dead_letters_receive_each)

lemma dead_letters_run: "\<exists>xs. dead_letters (run q ops s) = dead_letters s @ xs"
  unfolding run_def
proof (induction ops arbitrary: s)
  case Nil
  then show ?case by simp
next
  case (Cons op ops)
  obtain xs where "dead_letters (step q op s) = dead_letters s @ xs"
    using dead_letters_step by blast
  moreover obtain ys where "dead_letters (fold (step q) ops (step q op s)) = dead_letters (step q op s) @ ys"
    using Cons.IH by blast
  ultimately show ?case by simp
qed

lemma relocated_receive_each:
  assumes "m \<in> set ms" and "visible now m" and "exceeds q (attempt m)"
      and "length (fst (receive_each q now k ms s)) < k"
  shows "message_id m \<in> message_id ` set (dead_letters (snd (receive_each q now k ms s)))"
  using assms
proof (induction ms arbitrary: k s)
  case Nil
  then show ?case by simp
next
  case (Cons x ms)
  have k: "0 < k" using Cons.prems(4) by simp
  show ?case
  proof (cases "visible now x")
    case False
    then have "m \<in> set ms" using Cons.prems(1,2) by auto
    moreover have "length (fst (receive_each q now k ms s)) < k"
      using Cons.prems(4) False by simp
    ultimately show ?thesis
      using Cons.IH Cons.prems(2,3) False by simp
  next
    case vis: True
    show ?thesis
    proof (cases "exceeds q (attempt x)")
      case True
      let ?s = "relocate (attempt x) s"
      have eq: "receive_each q now k (x # ms) s = receive_each q now k ms ?s"
        using k vis True by simp
      show ?thesis
      proof (cases "m = x")
        case True
        have "message_id m \<in> message_id ` set (dead_letters ?s)"
          using True by (auto simp: relocate_def attempt_def)
        moreover obtain xs where
          "dead_letters (snd (receive_each q now k ms ?s)) = dead_letters ?s @ xs"
          using dead_letters_receive_each by blast
        ultimately show ?thesis unfolding eq by auto
      next
        case False
        then have "m \<in> set ms" using Cons.prems(1) by simp
        moreover have "length (fst (receive_each q now k ms ?s)) < k"
          using Cons.prems(4) unfolding eq .
        ultimately show ?thesis
          unfolding eq using Cons.IH Cons.prems(2,3) by blast
      qed
    next
      case nex: False
      let ?m' = "(attempt x)\<lparr>visibility_deadline := now + visibility_timeout q\<rparr>"
      let ?r = "receive_each q now (k - 1) ms (lease ?m' s)"
      have eq: "receive_each q now k (x # ms) s = (?m' # fst ?r, snd ?r)"
        using k vis nex by (simp add: Let_def split: prod.splits)
      have "m \<noteq> x" using nex Cons.prems(3) by auto
      then have "m \<in> set ms" using Cons.prems(1) by simp
      moreover have "length (fst ?r) < k - 1"
        using Cons.prems(4) unfolding eq by simp
      ultimately show ?thesis
        unfolding eq snd_conv using Cons.IH Cons.prems(2,3) by blast
    qed
  qed
qed

lemma receive_single:
  "receive q now k \<lparr>messages = [m], dead_letters = dl, next_id = n\<rparr> =
     (if k = 0 \<or> \<not> visible now m then ([], \<lparr>messages = [m], dead_letters = dl, next_id = n\<rparr>)
      else if exceeds q (attempt m)
        then ([], relocate (attempt m) \<lparr>messages = [m], dead_letters = dl, next_id = n\<rparr>)
      else ([(attempt m)\<lparr>visibility_deadline := now + visibility_timeout q\<rparr>],
            \<lparr>messages = [(attempt m)\<lparr>visibility_deadline := now + visibility_timeout q\<rparr>],
             dead_letters = dl, next_id = n\<rparr>))"
  by (simp add: receive_def lease_def Let_def)

lemma redeliver_no_messages: "messages s = [] \<Longrightarrow> redeliver q now j s = (replicate j 0, s)"
  by (induction j arbitrary: now) (simp_all add: receive_def)

lemma redeliver_single:
  assumes "max_receive_count q = Some mx"
      and "delivery_count m \<le> mx" and "visibility_deadline m \<le> now"
  shows "fst (redeliver q now j \<lparr>messages = [m], dead_letters = [], next_id = n\<rparr>) =
           replicate (min j (mx - delivery_count m)) 1 @ replicate (j - (mx - delivery_count m)) 0
       \<and> (mx - delivery_count m < j \<longrightarrow>
            messages (snd (redeliver q now j \<lparr>messages = [m], dead_letters = [], next_id = n\<rparr>)) = []
          \<and> map (\<lambda>x. (message_id x, payload x, delivery_count x))
               (dead_letters (snd (redeliver q now j \<lparr>messages = [m], dead_letters = [], next_id = n\<rparr>)))
             = [(message_id m, payload m, Suc mx)])
       \<and> (j \<le> mx - delivery_count m \<longrightarrow>
            map (\<lambda>x. (message_id x, payload x, delivery_count x))
               (messages (snd (redeliver q now j \<lparr>messages = [m], dead_letters = [], next_id = n\<rparr>)))
             = [(message_id m, payload m, delivery_count m + j)]
          \<and> dead_letters (snd (redeliver q now j \<lparr>messages = [m], dead_letters = [], next_id = n\<rparr>)) = [])"
  using assms(2,3)
proof (induction j arbitrary: m now)
  case 0
  then show ?case by simp
next
  case (Suc j)
  let ?s = "\<lparr>messages = [m], dead_letters = [], next_id = n\<rparr>"
  have vis: "visible now m" using Suc.prems(2) by (simp add: visible_def)
  show ?case
  proof (cases "delivery_count m = mx")
    case True
    then have ex: "exceeds q (attempt m)"
      using assms(1) by (simp add: exceeds_def attempt_def)
    have r: "receive q now (Suc 0) ?s = ([], \<lparr>messages = [], dead_letters = [attempt m], next_id = n\<rparr>)"
      using vis ex by (simp add: receive_single relocate_def)
    have "redeliver q now (Suc j) ?s =
            (0 # replicate j 0, \<lparr>messages = [], dead_letters = [attempt m], next_id = n\<rparr>)"
      by (simp add: r redeliver_no_messages)
    then show ?thesis using True by (simp add: attempt_def)
  next
    case False
    then have lt: "delivery_count m < mx" using Suc.prems(1) by simp
    then have nex: "\<not> exceeds q (attempt m)"
      using assms(1) by (simp add: exceeds_def attempt_def)
    let ?m' = "(attempt m)\<lparr>visibility_deadline := now + visibility_timeout q\<rparr>"
    let ?s' = "\<lparr>messages = [?m'], dead_letters = [], next_id = n\<rparr>"
    have r: "receive q now (Suc 0) ?s = ([?m'], ?s')"
      using vis nex by (simp add: receive_single)
    have c: "delivery_count ?m' = Suc (delivery_count m)"
      and i: "message_id ?m' = message_id m" and p: "payload ?m' = payload m"
      by (simp_all add: attempt_def)
    have ih: "fst (redeliver q (now + visibility_timeout q) j ?s') =
              replicate (min j (mx - delivery_count ?m')) 1 @ replicate (j - (mx - delivery_count ?m')) 0
       \<and> (mx - delivery_count ?m' < j \<longrightarrow>
            messages (snd (redeliver q (now + visibility_timeout q) j ?s')) = []
          \<and> map (\<lambda>x. (message_id x, payload x, delivery_count x))
               (dead_letters (snd (redeliver q (now + visibility_timeout q) j ?s')))
             = [(message_id ?m', payload ?m', Suc mx)])
       \<and> (j \<le> mx - delivery_count ?m' \<longrightarrow>
            map (\<lambda>x. (message_id x, payload x, delivery_count x))
               (messages (snd (redeliver q (now + visibility_timeout q) j ?s')))
             = [(message_id ?m', payload ?m', delivery_count ?m' + j)]
          \<and> dead_letters (snd (redeliver q (now + visibility_timeout q) j ?s')) = [])"
      by (rule Suc.IH) (use lt in \<open>simp_all add: attempt_def\<close>)
    have unfold: "redeliver q now (Suc j) ?s =
            (1 # fst (redeliver q (now + visibility_timeout q) j ?s'),
             snd (redeliver q (now + visibility_timeout q) j ?s'))"
      by (simp add: r split: prod.splits)
    have m1: "min (Suc j) (mx - delivery_count m) = Suc (min j (mx - Suc (delivery_count m)))"
      using lt unfolding min_def by (auto; arith)
    have m2: "Suc j - (mx - delivery_count m) = j - (mx - Suc (delivery_count m))"
      using lt by arith
    have m3: "mx - delivery_count m < Suc j \<longleftrightarrow> mx - Suc (delivery_count m) < j"
      using lt by arith
    have m4: "Suc j \<le> mx - delivery_count m \<longleftrightarrow> j \<le> mx - Suc (delivery_count m)"
      using lt by arith
    show ?thesis
      unfolding unfold fst_conv snd_conv m1 m2 m3 m4
      using ih unfolding c i p by simp
  qed
qed

subsection \<open>The declared queues\<close>

lemma nlpQueue_config:
  "visibility_timeout nlpQueue = 900" "max_receive_count nlpQueue = Some 2"
  by (simp_all add: visibility_timeout_def max_receive_count_def nlpQueue_def Duration_seconds_def)

lemma scraperQueue_config:
  "visibility_timeout PolicyReduceScraperQueue = 1800"
  "max_receive_count PolicyReduceScraperQueue = Some 5"
  by (simp_all add: visibility_timeout_def max_receive_count_def PolicyReduceScraperQueue_def
      Duration_seconds_def)

lemma app_queues:
  "nlpSQSQueue (coreStack (policy_reduce_app e)) = nlpQueue"
  "scraperSQSQueue (scraperStack (policy_reduce_app e)) = PolicyReduceScraperQueue"
  by (simp_all add: policy_reduce_app_def CoreStack_def ScraperStack_def Let_def)

lemma workQueues_app: "workQueues (policy_reduce_app e) = [PolicyReduceScraperQueue, nlpQueue]"
  by (simp add: workQueues_def app_queues)

lemma well_formed_reachable: "well_formed q (run q ops empty_queue)"
  by (rule well_formed_run) (rule well_formed_empty)

lemma well_formed_dead_not_in_source:
  assumes "well_formed q s" and "m \<in> set (dead_letters s)"
  shows "message_id m \<notin> message_id ` set (messages s)"
  using assms by (auto simp: well_formed_def)

lemma well_formed_same_id:
  assumes "well_formed q s" and "x \<in> set (messages s)" and "y \<in> set (messages s)"
      and "message_id x = message_id y"
  shows "x = y"
proof -
  have "inj_on message_id (set (messages s))"
    using assms(1) by (simp add: well_formed_def distinct_map)
  then show ?thesis using assms(2,3,4) by (auto dest: inj_onD)
qed

lemma batch_receive:
  assumes "x \<in> set (fst (receive q now k s))"
  shows "\<not> exceeds q x \<and>
         (\<exists>m\<in>set (messages s). visible now m \<and>
            x = (attempt m)\<lparr>visibility_deadline := now + visibility_timeout q\<rparr>)"
  using batch_receive_each [OF assms [unfolded receive_def]] by blast

lemma batch_ids:
  assumes "x \<in> set (fst (receive q now k s))"
  shows "message_id x \<in> message_id ` set (messages s)"
proof -
  obtain m where "m \<in> set (messages s)"
    and "x = (attempt m)\<lparr>visibility_deadline := now + visibility_timeout q\<rparr>"
    using batch_receive [OF assms] by blast
  then show ?thesis by force
qed

lemma exhausted_never_returned:
  assumes wf: "well_formed q s" and n: "max_receive_count q = Some n"
      and m: "m \<in> set (messages s)" and c: "delivery_count m = n"
  shows "message_id m \<notin> message_id ` set (fst (receive q now k s))"
proof
  assume "message_id m \<in> message_id ` set (fst (receive q now k s))"
  then obtain x where x: "x \<in> set (fst (receive q now k s))" and id: "message_id x = message_id m"
    by force
  obtain m0 where m0: "m0 \<in> set (messages s)"
    and xm: "x = (attempt m0)\<lparr>visibility_deadline := now + visibility_timeout q\<rparr>"
    and nx: "\<not> exceeds q x"
    using batch_receive [OF x] by blast
  have "message_id m0 = message_id m" using id xm by simp
  then have "m0 = m" using well_formed_same_id [OF wf m0 m] by simp
  then have "exceeds q x" using n c xm by (simp add: exceeds_def)
  then show False using nx by simp
qed

lemma exhausted_is_relocated:
  assumes wf: "well_formed q s" and n: "max_receive_count q = Some n"
      and m: "m \<in> set (messages s)" and vis: "visible now m" and c: "delivery_count m = n"
      and room: "length (fst (receive q now k s)) < k"
  shows "message_id m \<in> message_id ` set (dead_letters (snd (receive q now k s)))
       \<and> message_id m \<notin> message_id ` set (messages (snd (receive q now k s)))"
proof -
  have ex: "exceeds q (attempt m)"
    using n c by (simp add: exceeds_def)
  have dead: "message_id m \<in> message_id ` set (dead_letters (snd (receive q now k s)))"
    unfolding receive_def
    by (rule relocated_receive_each [OF m vis ex]) (use room in \<open>simp add: receive_def\<close>)
  have "well_formed q (snd (receive q now k s))"
    using wf by (rule well_formed_receive)
  then have "message_id m \<notin> message_id ` set (messages (snd (receive q now k s)))"
    using dead by (auto simp: well_formed_def)
  then show ?thesis using dead by simp
qed

lemma run_simps: "run q [] s = s" "run q (op # ops) s = run q ops (step q op s)"
  by (simp_all add: run_def)

lemma nlp_unacknowledged_twice:
  "run nlpQueue [Enqueue 0 messagePayload, Receive 0 (Suc 0), Receive 900 (Suc 0)] empty_queue =
     \<lparr>messages = [\<lparr>message_id = 0, payload = messagePayload, enqueue_time = 0,
                   delivery_count = 2, visibility_deadline = 1800\<rparr>],
      dead_letters = [], next_id = Suc 0\<rparr>"
  by (simp add: run_simps enqueue_def empty_queue_def receive_single visible_def exceeds_def
      nlpQueue_config attempt_def)

lemma nlp_third_receive:
  "receive nlpQueue 1800 (Suc 0)
     \<lparr>messages = [\<lparr>message_id = 0, payload = messagePayload, enqueue_time = 0,
                   delivery_count = 2, visibility_deadline = 1800\<rparr>],
      dead_letters = [], next_id = Suc 0\<rparr> =
   ([], \<lparr>messages = [],
         dead_letters = [\<lparr>message_id = 0, payload = messagePayload, enqueue_time = 0,
                          delivery_count = 3, visibility_deadline = 1800\<rparr>],
         next_id = Suc 0\<rparr>)"
  by (simp add: receive_single visible_def exceeds_def nlpQueue_config attempt_def relocate_def)

lemma nlp_unacknowledged_thrice:
  "run nlpQueue [Enqueue 0 messagePayload, Receive 0 (Suc 0), Receive 900 (Suc 0), Receive 1800 (Suc 0)] empty_queue =
     \<lparr>messages = [],
      dead_letters = [\<lparr>message_id = 0, payload = messagePayload, enqueue_time = 0,
                       delivery_count = 3, visibility_deadline = 1800\<rparr>],
      next_id = Suc 0\<rparr>"
proof -
  have "run nlpQueue [Enqueue 0 messagePayload, Receive 0 (Suc 0), Receive 900 (Suc 0), Receive 1800 (Suc 0)] empty_queue
      = step nlpQueue (Receive 1800 (Suc 0))
          (run nlpQueue [Enqueue 0 messagePayload, Receive 0 (Suc 0), Receive 900 (Suc 0)] empty_queue)"
    by (simp add: run_def)
  then show ?thesis
    unfolding nlp_unacknowledged_twice by (simp add: nlp_third_receive)
qed

text \<open>
  Claim C1. For each of the two work queues, in every state the queue reaches from empty by
  any history of enqueue, receive and acknowledge calls: no message of the source queue has
  a delivery count above the queue's \<open>max_receive_count\<close>; a message that has used up
  the budget is returned by no receive, and once its lease has elapsed the next receive
  that has room for it moves it to the dead-letter queue and removes it from the source
  queue within that one call; and every message of the dead-letter queue has a count above
  the budget, is absent from the source queue and is returned by no receive.
\<close>

theorem dead_letter_relocation:
  assumes "q \<in> set (workQueues (policy_reduce_app e))"
  shows "\<exists>n. max_receive_count q = Some n \<and>
    (\<forall>m\<in>set (messages (run q ops empty_queue)).
        delivery_count m \<le> n \<and>
        (delivery_count m = n \<longrightarrow>
           (\<forall>now k.
              message_id m \<notin> message_id ` set (fst (receive q now k (run q ops empty_queue))) \<and>
              (visible now m \<and> length (fst (receive q now k (run q ops empty_queue))) < k \<longrightarrow>
                 message_id m \<in> message_id `
                   set (dead_letters (snd (receive q now k (run q ops empty_queue)))) \<and>
                 message_id m \<notin> message_id `
                   set (messages (snd (receive q now k (run q ops empty_queue)))))))) \<and>
    (\<forall>m\<in>set (dead_letters (run q ops empty_queue)).
        n < delivery_count m \<and>
        message_id m \<notin> message_id ` set (messages (run q ops empty_queue)) \<and>
        (\<forall>now k. message_id m \<notin>
           message_id ` set (fst (receive q now k (run q ops empty_queue)))))"
proof -
  let ?s = "run q ops empty_queue"
  obtain n where n: "max_receive_count q = Some n"
    using assms by (auto simp: workQueues_app nlpQueue_config scraperQueue_config)
  have wf: "well_formed q ?s" by (rule well_formed_reachable)
  have a: "\<forall>m\<in>set (messages ?s). delivery_count m \<le> n"
    using wf n by (auto simp: well_formed_def exceeds_def not_less)
  have b: "\<forall>m\<in>set (messages ?s). delivery_count m = n \<longrightarrow>
           (\<forall>now k.
              message_id m \<notin> message_id ` set (fst (receive q now k ?s)) \<and>
              (visible now m \<and> length (fst (receive q now k ?s)) < k \<longrightarrow>
                 message_id m \<in> message_id ` set (dead_letters (snd (receive q now k ?s))) \<and>
                 message_id m \<notin> message_id ` set (messages (snd (receive q now k ?s)))))"
    using exhausted_is_relocated [OF wf n] exhausted_never_returned [OF wf n] by blast
  have c: "\<forall>m\<in>set (dead_letters ?s). n < delivery_count m"
    using wf n by (auto simp: well_formed_def exceeds_def)
  have d: "\<forall>m\<in>set (dead_letters ?s). message_id m \<notin> message_id ` set (messages ?s)"
    using well_formed_dead_not_in_source [OF wf] by blast
  have e: "\<forall>m\<in>set (dead_letters ?s). \<forall>now k.
             message_id m \<notin> message_id ` set (fst (receive q now k ?s))"
  proof (intro ballI allI notI)
    fix m now k
    assume "m \<in> set (dead_letters ?s)"
      and "message_id m \<in> message_id ` set (fst (receive q now k ?s))"
    then show False using batch_ids [of _ q now k ?s] d by fastforce
  qed
  show ?thesis
    using n a b c d e by blast
qed

theorem dead_letter_relocation_witness:
  "nlpQueue \<in> set (workQueues (policy_reduce_app \<lparr>account = ''0'', region = ''r''\<rparr>)) \<and>
   messages (run nlpQueue [Enqueue 0 messagePayload, Receive 0 1, Receive 900 1] empty_queue)
     = [\<lparr>message_id = 0, payload = messagePayload, enqueue_time = 0,
         delivery_count = 2, visibility_deadline = 1800\<rparr>] \<and>
   fst (receive nlpQueue 1800 1
          (run nlpQueue [Enqueue 0 messagePayload, Receive 0 1, Receive 900 1] empty_queue)) = [] \<and>
   (0::nat) \<in> message_id ` set (dead_letters (snd (receive nlpQueue 1800 1
          (run nlpQueue [Enqueue 0 messagePayload, Receive 0 1, Receive 900 1] empty_queue)))) \<and>
   (0::nat) \<notin> message_id ` set (messages (snd (receive nlpQueue 1800 1
          (run nlpQueue [Enqueue 0 messagePayload, Receive 0 1, Receive 900 1] empty_queue)))) \<and>
   dead_letters (run nlpQueue [Enqueue 0 messagePayload, Receive 0 1, Receive 900 1, Receive 1800 1]
                   empty_queue)
     = [\<lparr>message_id = 0, payload = messagePayload, enqueue_time = 0,
         delivery_count = 3, visibility_deadline = 1800\<rparr>] \<and>
   (\<forall>now k. (0::nat) \<notin> message_id ` set (fst (receive nlpQueue now k
       (run nlpQueue [Enqueue 0 messagePayload, Receive 0 1, Receive 900 1, Receive 1800 1]
          empty_queue))))"
proof -
  let ?e = "\<lparr>account = ''0'', region = ''r''\<rparr>"
  let ?m2 = "\<lparr>message_id = 0, payload = messagePayload, enqueue_time = 0,
              delivery_count = 2, visibility_deadline = 1800\<rparr>"
  let ?m3 = "\<lparr>message_id = 0, payload = messagePayload, enqueue_time = 0,
              delivery_count = 3, visibility_deadline = 1800\<rparr>"
  let ?ops2 = "[Enqueue 0 messagePayload, Receive 0 1, Receive 900 1]"
  let ?ops3 = "[Enqueue 0 messagePayload, Receive 0 1, Receive 900 1, Receive 1800 1]"
  have q: "nlpQueue \<in> set (workQueues (policy_reduce_app ?e))"
    by (simp add: workQueues_app)
  have m2: "?m2 \<in> set (messages (run nlpQueue ?ops2 empty_queue))"
    by (simp add: nlp_unacknowledged_twice)
  have r: "fst (receive nlpQueue 1800 1 (run nlpQueue ?ops2 empty_queue)) = []"
    by (simp add: nlp_unacknowledged_twice nlp_third_receive)
  have h: "delivery_count ?m2 = 2 \<and> visible 1800 ?m2 \<and>
           length (fst (receive nlpQueue 1800 1 (run nlpQueue ?ops2 empty_queue))) < 1"
    using r by (simp add: visible_def)
  have m3: "?m3 \<in> set (dead_letters (run nlpQueue ?ops3 empty_queue))"
    by (simp add: nlp_unacknowledged_thrice)
  from dead_letter_relocation [OF q, of ?ops2] m2 h
  have a: "message_id ?m2 \<in> message_id ` set (dead_letters (snd (receive nlpQueue 1800 1
              (run nlpQueue ?ops2 empty_queue)))) \<and>
           message_id ?m2 \<notin> message_id ` set (messages (snd (receive nlpQueue 1800 1
              (run nlpQueue ?ops2 empty_queue))))"
    unfolding nlpQueue_config by blast
  from dead_letter_relocation [OF q, of ?ops3] m3
  have b: "\<forall>now k. message_id ?m3 \<notin> message_id ` set (fst (receive nlpQueue now k
              (run nlpQueue ?ops3 empty_queue)))"
    by blast
  show ?thesis
    using q a b r by (simp add: nlp_unacknowledged_twice nlp_unacknowledged_thrice)
qed

text \<open>
  Claim C2. The retry budget of the nlp queue is 2 and that of the scraper queue is 5, the
  first strictly below the second. A message that is received again and again and never
  acknowledged is returned by the first 2 (nlp) or 5 (scraper) receives and by none after
  them, and from the receive after the last delivery on it is in the dead-letter queue,
  its payload intact.
\<close>

theorem retry_budgets:
  "max_receive_count (nlpSQSQueue (coreStack (policy_reduce_app e))) = Some 2 \<and>
   max_receive_count (scraperSQSQueue (scraperStack (policy_reduce_app e))) = Some 5 \<and>
   the (max_receive_count (nlpSQSQueue (coreStack (policy_reduce_app e))))
     < the (max_receive_count (scraperSQSQueue (scraperStack (policy_reduce_app e)))) \<and>
   fst (redeliver (nlpSQSQueue (coreStack (policy_reduce_app e))) now j
          (snd (enqueue now p empty_queue)))
     = replicate (min j 2) 1 @ replicate (j - 2) 0 \<and>
   fst (redeliver (scraperSQSQueue (scraperStack (policy_reduce_app e))) now j
          (snd (enqueue now p empty_queue)))
     = replicate (min j 5) 1 @ replicate (j - 5) 0 \<and>
   map (\<lambda>x. (payload x, delivery_count x))
     (dead_letters (snd (redeliver (nlpSQSQueue (coreStack (policy_reduce_app e))) now (3 + i)
          (snd (enqueue now p empty_queue))))) = [(p, 3)] \<and>
   map (\<lambda>x. (payload x, delivery_count x))
     (dead_letters (snd (redeliver (scraperSQSQueue (scraperStack (policy_reduce_app e))) now (6 + i)
          (snd (enqueue now p empty_queue))))) = [(p, 6)]"
proof -
  let ?m = "\<lparr>message_id = 0, payload = p, enqueue_time = now, delivery_count = 0,
             visibility_deadline = now\<rparr>"
  have s: "snd (enqueue now p empty_queue) = \<lparr>messages = [?m], dead_letters = [], next_id = 1\<rparr>"
    by (simp add: enqueue_def empty_queue_def)
  note nlp = redeliver_single [of nlpQueue 2 ?m now _ 1, OF nlpQueue_config(2), simplified]
  note scr = redeliver_single [of PolicyReduceScraperQueue 5 ?m now _ 1,
      OF scraperQueue_config(2), simplified]
  have n1: "fst (redeliver nlpQueue now j \<lparr>messages = [?m], dead_letters = [], next_id = 1\<rparr>)
      = replicate (min j 2) 1 @ replicate (j - 2) 0"
    using nlp [of j] by simp
  have s1: "fst (redeliver PolicyReduceScraperQueue now j
        \<lparr>messages = [?m], dead_letters = [], next_id = 1\<rparr>)
      = replicate (min j 5) 1 @ replicate (j - 5) 0"
    using scr [of j] by simp
  have n2: "map (\<lambda>x. (payload x, delivery_count x))
     (dead_letters (snd (redeliver nlpQueue now (3 + i)
        \<lparr>messages = [?m], dead_letters = [], next_id = 1\<rparr>))) = [(p, 3)]"
  proof -
    have "map (\<lambda>x. (message_id x, payload x, delivery_count x))
     (dead_letters (snd (redeliver nlpQueue now (3 + i)
        \<lparr>messages = [?m], dead_letters = [], next_id = 1\<rparr>))) = [(0, p, 3)]"
      using nlp [of "3 + i"] by simp
    then have "map (\<lambda>t. (fst (snd t), snd (snd t))) (map (\<lambda>x. (message_id x, payload x, delivery_count x))
     (dead_letters (snd (redeliver nlpQueue now (3 + i)
        \<lparr>messages = [?m], dead_letters = [], next_id = 1\<rparr>)))) = [(p, 3)]"
      by simp
    then show ?thesis by (simp add: comp_def)
  qed
  have s2: "map (\<lambda>x. (payload x, delivery_count x))
     (dead_letters (snd (redeliver PolicyReduceScraperQueue now (6 + i)
        \<lparr>messages = [?m], dead_letters = [], next_id = 1\<rparr>))) = [(p, 6)]"
  proof -
    have "map (\<lambda>x. (message_id x, payload x, delivery_count x))
     (dead_letters (snd (redeliver PolicyReduceScraperQueue now (6 + i)
        \<lparr>messages = [?m], dead_letters = [], next_id = 1\<rparr>))) = [(0, p, 6)]"
      using scr [of "6 + i"] by simp
    then have "map (\<lambda>t. (fst (snd t), snd (snd t))) (map (\<lambda>x. (message_id x, payload x, delivery_count x))
     (dead_letters (snd (redeliver PolicyReduceScraperQueue now (6 + i)
        \<lparr>messages = [?m], dead_letters = [], next_id = 1\<rparr>)))) = [(p, 6)]"
      by simp
    then show ?thesis by (simp add: comp_def)
  qed
  show ?thesis
    unfolding app_queues s nlpQueue_config scraperQueue_config
    using n1 s1 n2 s2 by simp
qed

section \<open>Properties of the declared pipeline\<close>

lemma app_functions:
  "scraper_lambdaFunction (scraperStack (policy_reduce_app e)) = PolicyReduceScraperFunction"
  "nlp_lambdaFunction (nlpStack (policy_reduce_app e)) = PolicyReduceNlpFunction (CoreStack e)"
  by (simp_all add: policy_reduce_app_def ScraperStack_def NlpStack_def Let_def)

lemma function_timeouts:
  "timeout PolicyReduceScraperFunction = 900"
  "timeout (PolicyReduceNlpFunction c) = 900"
  by (simp_all add: PolicyReduceScraperFunction_def PolicyReduceNlpFunction_def Duration_minutes_def)

lemma function_roles:
  "function_role PolicyReduceScraperFunction = PolicyReduceScraperLambdaRole"
  "function_role (PolicyReduceNlpFunction (CoreStack e)) = GeneralLambdaRole"
  by (simp_all add: PolicyReduceScraperFunction_def PolicyReduceNlpFunction_def CoreStack_def Let_def)

lemma eventSources_app:
  "eventSources (policy_reduce_app e) =
     [\<lparr>source_queue = PolicyReduceScraperQueue, batchSize = 1,
       consumer = PolicyReduceScraperFunction\<rparr>,
      \<lparr>source_queue = nlpQueue, batchSize = 1,
       consumer = PolicyReduceNlpFunction (CoreStack e)\<rparr>]"
  by (simp add: eventSources_def policy_reduce_app_def ScraperStack_def NlpStack_def
      CoreStack_def Let_def)

lemma length_receive: "length (fst (receive q now k s)) \<le> k"
  unfolding receive_def by (rule length_receive_each)

lemma two_visible_messages:
  "receive nlpQueue 5 (Suc 0)
     \<lparr>messages = [\<lparr>message_id = 0, payload = JString ''poison'', enqueue_time = 0,
                    delivery_count = 0, visibility_deadline = 0\<rparr>,
                  \<lparr>message_id = Suc 0, payload = JString ''healthy'', enqueue_time = 0,
                    delivery_count = 0, visibility_deadline = 0\<rparr>],
      dead_letters = [], next_id = 2\<rparr>
   = ([\<lparr>message_id = 0, payload = JString ''poison'', enqueue_time = 0,
        delivery_count = Suc 0, visibility_deadline = 905\<rparr>],
      \<lparr>messages = [\<lparr>message_id = 0, payload = JString ''poison'', enqueue_time = 0,
                    delivery_count = Suc 0, visibility_deadline = 905\<rparr>,
                  \<lparr>message_id = Suc 0, payload = JString ''healthy'', enqueue_time = 0,
                    delivery_count = 0, visibility_deadline = 0\<rparr>],
      dead_letters = [], next_id = 2\<rparr>)"
  by (simp add: receive_def visible_def exceeds_def nlpQueue_config attempt_def lease_def Let_def)

text \<open>
  Claim C4. Both event sources, the scraper's and the NLP worker's, are declared with batch
  size 1, so every dispatch to a worker hands it at most one message: any two messages of
  one batch are the same message, and a poison message is never in a batch with another.
\<close>

theorem batch_of_one:
  assumes "es \<in> set (eventSources (policy_reduce_app e))"
  shows "batchSize es = 1 \<and> length (fst (dispatch es now s)) \<le> 1 \<and>
         (\<forall>m\<in>set (fst (dispatch es now s)). \<forall>m'\<in>set (fst (dispatch es now s)). m' = m)"
proof -
  have b: "batchSize es = 1"
    using assms by (auto simp: eventSources_app)
  have l: "length (fst (dispatch es now s)) \<le> 1"
    using length_receive [of "source_queue es" now "batchSize es" s] b
    by (simp add: dispatch_def)
  then have "fst (dispatch es now s) = [] \<or> (\<exists>x. fst (dispatch es now s) = [x])"
    by (cases "fst (dispatch es now s)") auto
  then have "\<forall>m\<in>set (fst (dispatch es now s)). \<forall>m'\<in>set (fst (dispatch es now s)). m' = m"
    by auto
  then show ?thesis using b l by blast
qed

theorem batch_of_one_witness:
  "eventSources (policy_reduce_app \<lparr>account = ''0'', region = ''r''\<rparr>) ! 1
     \<in> set (eventSources (policy_reduce_app \<lparr>account = ''0'', region = ''r''\<rparr>)) \<and>
   batchSize (eventSources (policy_reduce_app \<lparr>account = ''0'', region = ''r''\<rparr>) ! 1) = 1 \<and>
   map payload (fst (dispatch (eventSources (policy_reduce_app \<lparr>account = ''0'', region = ''r''\<rparr>) ! 1) 5
     \<lparr>messages = [\<lparr>message_id = 0, payload = JString ''poison'', enqueue_time = 0,
                    delivery_count = 0, visibility_deadline = 0\<rparr>,
                  \<lparr>message_id = 1, payload = JString ''healthy'', enqueue_time = 0,
                    delivery_count = 0, visibility_deadline = 0\<rparr>],
      dead_letters = [], next_id = 2\<rparr>)) = [JString ''poison''] \<and>
   length (fst (dispatch (eventSources (policy_reduce_app \<lparr>account = ''0'', region = ''r''\<rparr>) ! 1) 5
     \<lparr>messages = [\<lparr>message_id = 0, payload = JString ''poison'', enqueue_time = 0,
                    delivery_count = 0, visibility_deadline = 0\<rparr>,
                  \<lparr>message_id = 1, payload = JString ''healthy'', enqueue_time = 0,
                    delivery_count = 0, visibility_deadline = 0\<rparr>],
      dead_letters = [], next_id = 2\<rparr>)) \<le> 1"
proof -
  let ?e = "\<lparr>account = ''0'', region = ''r''\<rparr>"
  let ?es = "eventSources (policy_reduce_app ?e) ! 1"
  have m: "?es \<in> set (eventSources (policy_reduce_app ?e))"
    by (simp add: eventSources_app)
  have q: "source_queue (eventSources (policy_reduce_app ?e) ! Suc 0) = nlpQueue"
    "batchSize (eventSources (policy_reduce_app ?e) ! Suc 0) = Suc 0"
    by (simp_all add: eventSources_app)
  show ?thesis
    using m batch_of_one [OF m, of 5]
    by (simp add: dispatch_def q two_visible_messages)
qed

text \<open>
  Claim C10. The visibility timeout of the nlp queue, 60 * 15 seconds, equals the timeout of
  the NLP function, 15 minutes; that of the scraper queue, 60 * 30 seconds, is twice the
  timeout of the scraper function, 15 minutes. So the lease of a message the NLP worker
  received at \<open>now\<close> ends at the instant a run of maximal length ends: a receive at that
  instant returns the message a second time, and the acknowledgment with the first receipt
  handle then removes nothing; on the scraper queue a receive at that instant returns
  nothing.
\<close>

theorem visibility_margin:
  "visibilityTimeout (nlpSQSQueue (coreStack (policy_reduce_app e))) = Some (60 * 15) \<and>
   timeout (nlp_lambdaFunction (nlpStack (policy_reduce_app e))) = 15 * 60 \<and>
   visibility_timeout (nlpSQSQueue (coreStack (policy_reduce_app e)))
     = timeout (nlp_lambdaFunction (nlpStack (policy_reduce_app e))) \<and>
   visibilityTimeout (scraperSQSQueue (scraperStack (policy_reduce_app e))) = Some (60 * 30) \<and>
   timeout (scraper_lambdaFunction (scraperStack (policy_reduce_app e))) = 15 * 60 \<and>
   visibility_timeout (scraperSQSQueue (scraperStack (policy_reduce_app e)))
     = 2 * timeout (scraper_lambdaFunction (scraperStack (policy_reduce_app e))) \<and>
   map (\<lambda>m. (delivery_count m, visibility_deadline m))
     (fst (receive (nlpSQSQueue (coreStack (policy_reduce_app e))) now 1
        (snd (enqueue now p empty_queue))))
     = [(1, now + timeout (nlp_lambdaFunction (nlpStack (policy_reduce_app e))))] \<and>
   map delivery_count
     (fst (receive (nlpSQSQueue (coreStack (policy_reduce_app e)))
        (now + timeout (nlp_lambdaFunction (nlpStack (policy_reduce_app e)))) 1
        (snd (receive (nlpSQSQueue (coreStack (policy_reduce_app e))) now 1
           (snd (enqueue now p empty_queue))))))
     = [2] \<and>
   acknowledge 0 1
     (snd (receive (nlpSQSQueue (coreStack (policy_reduce_app e)))
        (now + timeout (nlp_lambdaFunction (nlpStack (policy_reduce_app e)))) 1
        (snd (receive (nlpSQSQueue (coreStack (policy_reduce_app e))) now 1
           (snd (enqueue now p empty_queue))))))
     = snd (receive (nlpSQSQueue (coreStack (policy_reduce_app e)))
        (now + timeout (nlp_lambdaFunction (nlpStack (policy_reduce_app e)))) 1
        (snd (receive (nlpSQSQueue (coreStack (policy_reduce_app e))) now 1
           (snd (enqueue now p empty_queue))))) \<and>
   fst (receive (scraperSQSQueue (scraperStack (policy_reduce_app e)))
        (now + timeout (scraper_lambdaFunction (scraperStack (policy_reduce_app e)))) 1
        (snd (receive (scraperSQSQueue (scraperStack (policy_reduce_app e))) now 1
           (snd (enqueue now p empty_queue)))))
     = []"
  by (simp add: app_queues app_functions function_timeouts nlpQueue_config scraperQueue_config
      enqueue_def empty_queue_def receive_single visible_def exceeds_def acknowledge_def)
    (simp add: nlpQueue_def PolicyReduceScraperQueue_def Duration_seconds_def)

lemma decimal_values: "decimal ''0'' = Some 0" "decimal ''10'' = Some 10" "decimal ''1'' = Some 1"
  by (simp_all add: decimal_def digit_def)

lemma scraperRule_app:
  "scraperRule (scraperStack (policy_reduce_app e)) = PolicyReduceScraperRule"
  by (simp add: policy_reduce_app_def ScraperStack_def Let_def)

lemma cron_scraperRule:
  "cron_matches (schedule PolicyReduceScraperRule) t \<longleftrightarrow> i_hour t = 10 \<and> i_minute t = 0"
  by (auto simp: cron_matches_def cron_field_def PolicyReduceScraperRule_def decimal_values)

lemma fire_scraperRule:
  "fire PolicyReduceScraperRule now PolicyReduceScraperQueue s =
     s\<lparr>messages := messages s @
          [\<lparr>message_id = next_id s, payload = messagePayload, enqueue_time = now,
            delivery_count = 0, visibility_deadline = now\<rparr>],
       next_id := next_id s + 1\<rparr>"
  by (simp add: fire_def PolicyReduceScraperRule_def enqueue_def)

text \<open>
  Claim C5. The application has one schedule rule. Its cron expression matches exactly the
  instants with hour 10 and minute 0, one a day, and it has one target, the scraper queue,
  with the literal message \<open>{"action": "e_ingest"}\<close>. At each such instant the scheduler
  appends exactly one new message with that payload to the scraper queue, whatever the
  queue holds already: the backlog is left as it is and dead letters are untouched.
\<close>

theorem scheduler_trigger:
  "rules (policy_reduce_app e) = [scraperRule (scraperStack (policy_reduce_app e))] \<and>
   map (\<lambda>t. (target_queue t, message t))
       (targets (scraperRule (scraperStack (policy_reduce_app e))))
     = [(scraperSQSQueue (scraperStack (policy_reduce_app e)),
         JObject [(''action'', JString ''e_ingest'')])] \<and>
   cron_matches (schedule (scraperRule (scraperStack (policy_reduce_app e)))) t
     = (i_hour t = 10 \<and> i_minute t = 0) \<and>
   scheduler (scraperRule (scraperStack (policy_reduce_app e))) t now
       (scraperSQSQueue (scraperStack (policy_reduce_app e))) s
     = (if i_hour t = 10 \<and> i_minute t = 0
        then s\<lparr>messages := messages s @
                 [\<lparr>message_id = next_id s, payload = JObject [(''action'', JString ''e_ingest'')],
                   enqueue_time = now, delivery_count = 0, visibility_deadline = now\<rparr>],
               next_id := next_id s + 1\<rparr>
        else s)"
  by (simp add: rules_def scraperRule_app app_queues cron_scraperRule scheduler_def
      fire_scraperRule)
    (simp add: PolicyReduceScraperRule_def messagePayload_def)

lemma glob_star_skip: "glob_match p s \<Longrightarrow> glob_match (CHR ''*'' # p) (x @ s)"
proof (induction x)
  case Nil
  then show ?case by (cases s) auto
next
  case (Cons a x)
  then show ?case by simp
qed

lemma glob_match_refl: "glob_match p p"
proof (induction p)
  case Nil
  then show ?case by simp
next
  case (Cons c p)
  show ?case
  proof (cases "c = CHR ''*''")
    case True
    then show ?thesis using glob_star_skip [OF Cons, of "[c]"] by simp
  next
    case False
    then show ?thesis using Cons by simp
  qed
qed

lemma glob_match_star: "glob_match ''*'' s"
  using glob_star_skip [of "[]" "[]" s] by simp

lemma glob_match_prefix: "glob_match (p @ ''*'') (p @ s)"
proof (induction p)
  case Nil
  then show ?case using glob_match_star by simp
next
  case (Cons c p)
  show ?case
  proof (cases "c = CHR ''*''")
    case True
    then show ?thesis using glob_star_skip [OF Cons, of "[c]"] by simp
  next
    case False
    then show ?thesis using Cons by simp
  qed
qed

lemma rolePolicies_nlp:
  "set (nlp_rolePolicies (nlpStack (policy_reduce_app e))) \<subseteq> set (rolePolicies (policy_reduce_app e))"
  "set (scraper_rolePolicies (scraperStack (policy_reduce_app e))) \<subseteq> set (rolePolicies (policy_reduce_app e))"
  by (auto simp: rolePolicies_def)

lemma nlp_rolePolicies_app:
  "nlp_rolePolicies (nlpStack (policy_reduce_app e)) =
     [grantSendMessages nlpQueue GeneralLambdaRole,
      (role_id GeneralLambdaRole, eventBridgeRulePolicy e)]"
  by (simp add: policy_reduce_app_def NlpStack_def CoreStack_def Let_def PolicyReduceNlpFunction_def)

lemma scraper_rolePolicies_app:
  "grantSendMessages nlpQueue PolicyReduceScraperLambdaRole
     \<in> set (scraper_rolePolicies (scraperStack (policy_reduce_app e)))"
  by (simp add: policy_reduce_app_def ScraperStack_def CoreStack_def Let_def
      PolicyReduceScraperFunction_def)

lemma role_may_member:
  assumes "(role_id r, st) \<in> set pols" and "statement_allows st action res"
  shows "role_may pols r action res"
  using assms unfolding role_may_def list_ex_iff by fastforce

lemma grantSendMessages_allows:
  "statement_allows (snd (grantSendMessages q r)) ''sqs:SendMessage'' (queueArn q)"
  "fst (grantSendMessages q r) = role_id r"
  by (simp_all add: grantSendMessages_def statement_allows_def queueArn_def)

lemma grantSendMessages_pair:
  "(role_id r, snd (grantSendMessages q r)) = grantSendMessages q r"
  by (simp add: grantSendMessages_def)

lemma eventBridgeRulePolicy_allows:
  assumes "action \<in> set (actions (eventBridgeRulePolicy e))"
  shows "statement_allows (eventBridgeRulePolicy e) action
           (ArnPattern (''arn:aws:events:'' @ region e @ '':'' @ account e
                        @ '':rule/policy-reduce-batch-check-'' @ name))"
proof -
  have "glob_match ((''arn:aws:events:'' @ region e @ '':'' @ account e
                      @ '':rule/policy-reduce-batch-check-'') @ ''*'')
                   ((''arn:aws:events:'' @ region e @ '':'' @ account e
                      @ '':rule/policy-reduce-batch-check-'') @ name)"
    by (rule glob_match_prefix)
  then have "glob_match (''arn:aws:events:'' @ region e @ '':'' @ account e
                      @ '':rule/policy-reduce-batch-check-*'')
                   (''arn:aws:events:'' @ region e @ '':'' @ account e
                      @ '':rule/policy-reduce-batch-check-'' @ name)"
    by simp
  moreover have "list_ex (\<lambda>a. glob_match a action) (actions (eventBridgeRulePolicy e))"
    unfolding list_ex_iff using assms glob_match_refl by blast
  ultimately show ?thesis
    by (simp add: statement_allows_def eventBridgeRulePolicy_def)
qed

text \<open>
  Claim C9. The NLP function is the consumer of the nlp queue, and the NLP stack allows its
  role to send messages to that same queue, allows it to put and to delete every event rule
  whose name starts with \<open>policy-reduce-batch-check-\<close>, and allows the event service's
  principal to send messages to the nlp queue. The scraper function, which also may send to
  the nlp queue, runs under a different role, so the queue has producers other than the
  scraper worker.
\<close>

theorem nlp_self_requeue_path:
  "map (\<lambda>es. (consumer es, source_queue es)) (nlp_eventSources (nlpStack (policy_reduce_app e)))
     = [(nlp_lambdaFunction (nlpStack (policy_reduce_app e)),
         nlpSQSQueue (coreStack (policy_reduce_app e)))] \<and>
   grantSendMessages (nlpSQSQueue (coreStack (policy_reduce_app e)))
       (function_role (nlp_lambdaFunction (nlpStack (policy_reduce_app e))))
     \<in> set (nlp_rolePolicies (nlpStack (policy_reduce_app e))) \<and>
   (role_id (function_role (nlp_lambdaFunction (nlpStack (policy_reduce_app e)))),
    eventBridgeRulePolicy e)
     \<in> set (nlp_rolePolicies (nlpStack (policy_reduce_app e))) \<and>
   map (\<lambda>(qid, st). (qid, effect st, principals st, actions st, resources st))
       (nlp_queuePolicies (nlpStack (policy_reduce_app e)))
     = [(construct_id (nlpSQSQueue (coreStack (policy_reduce_app e))), ALLOW,
         [ServicePrincipal ''events.amazonaws.com''], [''sqs:SendMessage''],
         [queueArn (nlpSQSQueue (coreStack (policy_reduce_app e)))])] \<and>
   role_may (rolePolicies (policy_reduce_app e))
     (function_role (nlp_lambdaFunction (nlpStack (policy_reduce_app e))))
     ''sqs:SendMessage'' (queueArn (nlpSQSQueue (coreStack (policy_reduce_app e)))) \<and>
   role_may (rolePolicies (policy_reduce_app e))
     (function_role (nlp_lambdaFunction (nlpStack (policy_reduce_app e))))
     ''events:PutRule''
     (ArnPattern (''arn:aws:events:'' @ region e @ '':'' @ account e
                  @ '':rule/policy-reduce-batch-check-'' @ name)) \<and>
   role_may (rolePolicies (policy_reduce_app e))
     (function_role (nlp_lambdaFunction (nlpStack (policy_reduce_app e))))
     ''events:DeleteRule''
     (ArnPattern (''arn:aws:events:'' @ region e @ '':'' @ account e
                  @ '':rule/policy-reduce-batch-check-'' @ name)) \<and>
   principal_may (queuePolicies (policy_reduce_app e))
     (ServicePrincipal ''events.amazonaws.com'') ''sqs:SendMessage''
     (nlpSQSQueue (coreStack (policy_reduce_app e))) \<and>
   role_may (rolePolicies (policy_reduce_app e))
     (function_role (scraper_lambdaFunction (scraperStack (policy_reduce_app e))))
     ''sqs:SendMessage'' (queueArn (nlpSQSQueue (coreStack (policy_reduce_app e)))) \<and>
   function_role (nlp_lambdaFunction (nlpStack (policy_reduce_app e)))
     \<noteq> function_role (scraper_lambdaFunction (scraperStack (policy_reduce_app e)))"
proof -
  let ?a = "policy_reduce_app e"
  have es: "map (\<lambda>es. (consumer es, source_queue es)) (nlp_eventSources (nlpStack ?a))
     = [(nlp_lambdaFunction (nlpStack ?a), nlpSQSQueue (coreStack ?a))]"
    by (simp add: policy_reduce_app_def NlpStack_def Let_def)
  have g: "(role_id GeneralLambdaRole, snd (grantSendMessages nlpQueue GeneralLambdaRole))
             \<in> set (rolePolicies ?a)"
    unfolding grantSendMessages_pair
    using rolePolicies_nlp(1) [of e] by (auto simp: nlp_rolePolicies_app)
  have send: "role_may (rolePolicies ?a) GeneralLambdaRole ''sqs:SendMessage'' (queueArn nlpQueue)"
    using role_may_member [OF g grantSendMessages_allows(1)] .
  have p: "(role_id GeneralLambdaRole, eventBridgeRulePolicy e) \<in> set (rolePolicies ?a)"
    using rolePolicies_nlp(1) [of e] by (auto simp: nlp_rolePolicies_app)
  have put: "role_may (rolePolicies ?a) GeneralLambdaRole ''events:PutRule''
     (ArnPattern (''arn:aws:events:'' @ region e @ '':'' @ account e
                  @ '':rule/policy-reduce-batch-check-'' @ name))"
    by (rule role_may_member [OF p], rule eventBridgeRulePolicy_allows)
       (simp add: eventBridgeRulePolicy_def)
  have del: "role_may (rolePolicies ?a) GeneralLambdaRole ''events:DeleteRule''
     (ArnPattern (''arn:aws:events:'' @ region e @ '':'' @ account e
                  @ '':rule/policy-reduce-batch-check-'' @ name))"
    by (rule role_may_member [OF p], rule eventBridgeRulePolicy_allows)
       (simp add: eventBridgeRulePolicy_def)
  have ev: "principal_may (queuePolicies ?a) (ServicePrincipal ''events.amazonaws.com'')
              ''sqs:SendMessage'' nlpQueue"
    by (simp add: principal_may_def queuePolicies_def policy_reduce_app_def NlpStack_def
        ScraperStack_def CoreStack_def Let_def statement_allows_def queueArn_def
        nlpQueue_def PolicyReduceScraperQueue_def)
  have sg: "(role_id PolicyReduceScraperLambdaRole,
             snd (grantSendMessages nlpQueue PolicyReduceScraperLambdaRole))
             \<in> set (rolePolicies ?a)"
    unfolding grantSendMessages_pair
    using rolePolicies_nlp(2) [of e] scraper_rolePolicies_app [of e] by blast
  have ssend: "role_may (rolePolicies ?a) PolicyReduceScraperLambdaRole ''sqs:SendMessage''
                 (queueArn nlpQueue)"
    using role_may_member [OF sg grantSendMessages_allows(1)] .
  have ne: "GeneralLambdaRole \<noteq> PolicyReduceScraperLambdaRole"
    by (simp add: GeneralLambdaRole_def PolicyReduceScraperLambdaRole_def)
  have lit: "map (\<lambda>(qid, st). (qid, effect st, principals st, actions st, resources st))
       (nlp_queuePolicies (nlpStack ?a))
     = [(construct_id nlpQueue, ALLOW,
         [ServicePrincipal ''events.amazonaws.com''], [''sqs:SendMessage''],
         [queueArn nlpQueue])]"
    by (simp add: policy_reduce_app_def NlpStack_def CoreStack_def Let_def)
  show ?thesis
    unfolding app_functions function_roles app_queues
    using es send put del ev ssend ne lit nlp_rolePolicies_app [of e]
    by (simp add: app_functions function_roles app_queues)
qed

section \<open>Properties of the alerting sink\<close>

lemma alarms_app:
  "alarms (policy_reduce_app e) =
     [ErrorAlarm, TotalRequeryErrorAlarm, PollCreationErrorAlarm, ScraperLambdaFailureAlarm,
      NlpLambdaFailureAlarm (CoreStack e)]"
  by (simp add: alarms_def policy_reduce_app_def ScraperStack_def NlpStack_def Let_def)

lemma alarm_with_topic_shape:
  "threshold (alarm_with_topic aid m descr tid) = 1"
  "evaluationPeriods (alarm_with_topic aid m descr tid) = 1"
  "comparisonOperator (alarm_with_topic aid m descr tid) = GREATER_THAN_OR_EQUAL_TO_THRESHOLD"
  "notifications (alarm_with_topic aid m descr tid) = [(tid, ''rahilv99@gmail.com'')]"
  "breaching (alarm_with_topic aid m descr tid) v \<longleftrightarrow> 1 \<le> v"
  by (simp_all add: alarm_with_topic_def notifications_def breaching_def)

lemma alarms_shape:
  assumes "a \<in> set (alarms (policy_reduce_app e))"
  shows "\<exists>aid m descr tid. a = alarm_with_topic aid m descr tid"
  using assms unfolding alarms_app
  by (auto simp: ErrorAlarm_def TotalRequeryErrorAlarm_def PollCreationErrorAlarm_def
      ScraperLambdaFailureAlarm_def NlpLambdaFailureAlarm_def)

lemma observe_length: "length (observe a st vs) = length vs"
  by (induction vs arbitrary: st) (simp_all add: Let_def)

lemma observe_nth:
  assumes "j < length vs"
  shows "observe a st vs ! j =
           evaluate a (if j = 0 then st else fst (observe a st vs ! (j - 1))) (vs ! j)"
  using assms
proof (induction vs arbitrary: st j)
  case Nil
  then show ?case by simp
next
  case (Cons v vs)
  show ?case
  proof (cases j)
    case 0
    then show ?thesis by (simp add: Let_def)
  next
    case (Suc i)
    then have i: "i < length vs" using Cons.prems by simp
    have "observe a st (v # vs) ! j = observe a (fst (evaluate a st v)) vs ! i"
      using Suc by (simp add: Let_def)
    also have "\<dots> = evaluate a (if i = 0 then fst (evaluate a st v)
                              else fst (observe a (fst (evaluate a st v)) vs ! (i - 1))) (vs ! i)"
      using Cons.IH [OF i] .
    also have "\<dots> = evaluate a (fst (observe a st (v # vs) ! (j - 1))) ((v # vs) ! j)"
      using Suc by (cases i) (simp_all add: Let_def)
    finally show ?thesis using Suc by simp
  qed
qed

lemma evaluate_fst: "fst (evaluate a st v) = (if breaching a v then ALARM else OK)"
  by (simp add: evaluate_def Let_def)

lemma evaluate_snd:
  "snd (evaluate a st v) = (if st = OK \<and> fst (evaluate a st v) = ALARM then notifications a else [])"
  by (simp add: evaluate_def Let_def)

lemma observe_silent:
  assumes "\<forall>v\<in>set vs. breaching a v"
  shows "concat (map snd (observe a ALARM vs)) = []"
  using assms by (induction vs) (simp_all add: Let_def evaluate_def)

lemma observe_once:
  assumes "breaching a v" and "\<forall>x\<in>set vs. breaching a x"
  shows "concat (map snd (observe a OK (v # vs))) = notifications a"
  using assms observe_silent [of vs a] by (simp add: Let_def evaluate_def)

lemma observe_renotify:
  assumes "i < j" and "j < length vs"
      and "snd (observe a st vs ! i) \<noteq> []" and "snd (observe a st vs ! j) \<noteq> []"
  shows "i < j - 1 \<and> fst (observe a st vs ! (j - 1)) = OK"
proof -
  have i: "i < length vs" using assms(1,2) by simp
  have "fst (observe a st vs ! i) = ALARM"
    using assms(3) unfolding observe_nth [OF i] evaluate_snd by (auto split: if_splits)
  moreover have "fst (observe a st vs ! (j - 1)) = OK"
    using assms(1,4) unfolding observe_nth [OF assms(2)] evaluate_snd
    by (auto split: if_splits)
  ultimately have "i \<noteq> j - 1" by auto
  then show ?thesis
    using assms(1) \<open>fst (observe a st vs ! (j - 1)) = OK\<close> by auto
qed

lemma ErrorAlarm_evaluate:
  "evaluate ErrorAlarm st v =
     (if 1 \<le> v then (ALARM, if st = OK then [(''PolicyReduceScraperErrorAlarmTopic'', ''rahilv99@gmail.com'')] else [])
      else (OK, []))"
  by (simp add: evaluate_def Let_def ErrorAlarm_def alarm_with_topic_shape)

lemma ErrorAlarm_scenario:
  "observe ErrorAlarm OK [0, 1, 3, 2, 1, 1, 1, 0, 5] =
     [(OK, []),
      (ALARM, [(''PolicyReduceScraperErrorAlarmTopic'', ''rahilv99@gmail.com'')]),
      (ALARM, []), (ALARM, []), (ALARM, []), (ALARM, []), (ALARM, []),
      (OK, []),
      (ALARM, [(''PolicyReduceScraperErrorAlarmTopic'', ''rahilv99@gmail.com'')])]"
  by (simp add: ErrorAlarm_evaluate Let_def)

text \<open>
  Claim C6. Every alarm of the application has one alarm action with one subscriber, and
  breaches when the windowed sum is at least 1. An evaluation dispatches exactly one
  notification when it takes the alarm from \<open>OK\<close> to \<open>ALARM\<close> and none otherwise;
  each window is evaluated from the state the previous window left. While every window
  breaches, an alarm already in \<open>ALARM\<close> dispatches nothing and an alarm in \<open>OK\<close>
  dispatches one notification in all; and between two windows that dispatch a notification
  there is a window that left the alarm in \<open>OK\<close>.
\<close>

theorem alarm_edge_triggered:
  assumes "a \<in> set (alarms (policy_reduce_app e))"
  shows "length (notifications a) = 1 \<and>
    (\<forall>st v. fst (evaluate a st v) = (if 1 \<le> v then ALARM else OK)) \<and>
    (\<forall>st v. snd (evaluate a st v)
              = (if st = OK \<and> fst (evaluate a st v) = ALARM then notifications a else [])) \<and>
    (\<forall>st vs j. j < length vs \<longrightarrow>
        observe a st vs ! j
          = evaluate a (if j = 0 then st else fst (observe a st vs ! (j - 1))) (vs ! j)) \<and>
    (\<forall>vs. (\<forall>v\<in>set vs. 1 \<le> v) \<longrightarrow> concat (map snd (observe a ALARM vs)) = []) \<and>
    (\<forall>v vs. 1 \<le> v \<and> (\<forall>x\<in>set vs. 1 \<le> x) \<longrightarrow>
        length (concat (map snd (observe a OK (v # vs)))) = 1) \<and>
    (\<forall>st vs i j. i < j \<and> j < length vs \<and> snd (observe a st vs ! i) \<noteq> [] \<and>
        snd (observe a st vs ! j) \<noteq> [] \<longrightarrow>
        i < j - 1 \<and> fst (observe a st vs ! (j - 1)) = OK)"
proof -
  obtain aid m descr tid where a: "a = alarm_with_topic aid m descr tid"
    using alarms_shape [OF assms] by blast
  have b: "\<And>v. breaching a v \<longleftrightarrow> 1 \<le> v"
    unfolding a by (rule alarm_with_topic_shape)
  have n: "length (notifications a) = 1"
    unfolding a by (simp add: alarm_with_topic_shape)
  have 1: "\<forall>st v. fst (evaluate a st v) = (if 1 \<le> v then ALARM else OK)"
    by (simp add: evaluate_fst b)
  have 2: "\<forall>st v. snd (evaluate a st v)
              = (if st = OK \<and> fst (evaluate a st v) = ALARM then notifications a else [])"
    using evaluate_snd by blast
  have 3: "\<forall>st vs j. j < length vs \<longrightarrow>
        observe a st vs ! j
          = evaluate a (if j = 0 then st else fst (observe a st vs ! (j - 1))) (vs ! j)"
    using observe_nth by blast
  have 4: "\<forall>vs. (\<forall>v\<in>set vs. 1 \<le> v) \<longrightarrow> concat (map snd (observe a ALARM vs)) = []"
    using observe_silent [of _ a] b by blast
  have 5: "\<forall>v vs. 1 \<le> v \<and> (\<forall>x\<in>set vs. 1 \<le> x) \<longrightarrow>
        length (concat (map snd (observe a OK (v # vs)))) = 1"
    using observe_once [of a] b n by metis
  have 6: "\<forall>st vs i j. i < j \<and> j < length vs \<and> snd (observe a st vs ! i) \<noteq> [] \<and>
        snd (observe a st vs ! j) \<noteq> [] \<longrightarrow>
        i < j - 1 \<and> fst (observe a st vs ! (j - 1)) = OK"
    using observe_renotify [of _ _ _ a] by blast
  show ?thesis using n 1 2 3 4 5 6 by blast
qed

theorem alarm_edge_triggered_witness:
  "ErrorAlarm \<in> set (alarms (policy_reduce_app \<lparr>account = ''0'', region = ''r''\<rparr>)) \<and>
   map (\<lambda>r. length (snd r)) (observe ErrorAlarm OK [0, 1, 3, 2, 1, 1, 1, 0, 5])
     = [0, 1, 0, 0, 0, 0, 0, 0, 1] \<and>
   length (concat (map snd (observe ErrorAlarm OK [1, 3, 2, 1, 1, 1]))) = 1 \<and>
   (1::nat) < 8 - 1 \<and> fst (observe ErrorAlarm OK [0, 1, 3, 2, 1, 1, 1, 0, 5] ! (8 - 1)) = OK"
proof -
  have m: "ErrorAlarm \<in> set (alarms (policy_reduce_app \<lparr>account = ''0'', region = ''r''\<rparr>))"
    by (simp add: alarms_app)
  note t = alarm_edge_triggered [OF m]
  have once: "length (concat (map snd (observe ErrorAlarm OK [1, 3, 2, 1, 1, 1]))) = 1"
  proof -
    have "(1::nat) \<le> 1 \<and> (\<forall>x\<in>set [3, 2, 1, 1, 1::nat]. 1 \<le> x)" by simp
    then show ?thesis using t by blast
  qed
  have again: "(1::nat) < 8 - 1 \<and> fst (observe ErrorAlarm OK [0, 1, 3, 2, 1, 1, 1, 0, 5] ! (8 - 1)) = OK"
  proof -
    have "(1::nat) < 8 \<and> 8 < length [0, 1, 3, 2, 1, 1, 1, 0, 5::nat] \<and>
          snd (observe ErrorAlarm OK [0, 1, 3, 2, 1, 1, 1, 0, 5] ! 1) \<noteq> [] \<and>
          snd (observe ErrorAlarm OK [0, 1, 3, 2, 1, 1, 1, 0, 5] ! 8) \<noteq> []"
      unfolding ErrorAlarm_scenario by simp
    then show ?thesis using t by blast
  qed
  show ?thesis using m once again unfolding ErrorAlarm_scenario by simp
qed

lemma starts_with_iff: "starts_with p s \<longleftrightarrow> (\<exists>b. s = p @ b)"
  by (induction p s rule: starts_with.induct) auto

lemma contains_iff: "contains p s \<longleftrightarrow> (\<exists>a b. s = a @ p @ b)"
proof (induction s)
  case Nil
  then show ?case by auto
next
  case (Cons d s)
  have "(\<exists>a b. d # s = a @ p @ b) \<longleftrightarrow> (\<exists>b. d # s = p @ b) \<or> (\<exists>a b. s = a @ p @ b)"
  proof
    assume "\<exists>a b. d # s = a @ p @ b"
    then obtain a b where ab: "d # s = a @ p @ b" by blast
    show "(\<exists>b. d # s = p @ b) \<or> (\<exists>a b. s = a @ p @ b)"
    proof (cases a)
      case Nil
      then show ?thesis using ab by auto
    next
      case (Cons x a')
      then have "s = a' @ p @ b" using ab by simp
      then show ?thesis by blast
    qed
  next
    assume "(\<exists>b. d # s = p @ b) \<or> (\<exists>a b. s = a @ p @ b)"
    then show "\<exists>a b. d # s = a @ p @ b"
    proof
      assume "\<exists>b. d # s = p @ b"
      then obtain b where "d # s = [] @ p @ b" by auto
      then show ?thesis by blast
    next
      assume "\<exists>a b. s = a @ p @ b"
      then obtain a b where "d # s = (d # a) @ p @ b" by auto
      then show ?thesis by blast
    qed
  qed
  then show ?case using Cons by (simp add: starts_with_iff)
qed

lemma metricFilters_app:
  "metricFilters (policy_reduce_app e) =
     [PolicyReduceErrorFilter, PolicyReduceTotalRequeryErrorFilter,
      PolicyReducePollCreationErrorFilter]"
  by (simp add: metricFilters_def policy_reduce_app_def ScraperStack_def NlpStack_def Let_def)

lemma function_logGroups:
  "logGroup PolicyReduceScraperFunction = PolicyReduceScraperLogGroup"
  "logGroup (PolicyReduceNlpFunction c) = PolicyReduceNlpLogGroup"
  by (simp_all add: PolicyReduceScraperFunction_def PolicyReduceNlpFunction_def)

lemma logGroups_differ: "PolicyReduceScraperLogGroup \<noteq> PolicyReduceNlpLogGroup"
  by (simp add: PolicyReduceScraperLogGroup_def PolicyReduceNlpLogGroup_def)

lemma filter_fields:
  "filter_logGroup PolicyReduceErrorFilter = PolicyReduceScraperLogGroup"
  "filter_logGroup PolicyReduceTotalRequeryErrorFilter = PolicyReduceScraperLogGroup"
  "filter_logGroup PolicyReducePollCreationErrorFilter = PolicyReduceScraperLogGroup"
  "filterPattern PolicyReduceErrorFilter = ''Error''"
  "filterPattern PolicyReduceTotalRequeryErrorFilter = ''Logging error''"
  "filterPattern PolicyReducePollCreationErrorFilter = ''Error creating eventbridge rule''"
  "metricNamespace PolicyReduceErrorFilter = ''PolicyReduce/Scraper''"
  "metricNamespace PolicyReduceTotalRequeryErrorFilter = ''PolicyReduce/Scraper''"
  "metricNamespace PolicyReducePollCreationErrorFilter = ''PolicyReduce/Scraper''"
  "filter_metricName PolicyReduceErrorFilter = ''Error''"
  "filter_metricName PolicyReduceTotalRequeryErrorFilter = ''TotalRequeryError''"
  "filter_metricName PolicyReducePollCreationErrorFilter = ''PollCreationError''"
  "metricValue PolicyReduceErrorFilter = ''1''"
  "metricValue PolicyReduceTotalRequeryErrorFilter = ''1''"
  "metricValue PolicyReducePollCreationErrorFilter = ''1''"
  by (simp_all add: PolicyReduceErrorFilter_def PolicyReduceTotalRequeryErrorFilter_def
      PolicyReducePollCreationErrorFilter_def)

lemma emit_scraper:
  "emit [PolicyReduceErrorFilter, PolicyReduceTotalRequeryErrorFilter,
         PolicyReducePollCreationErrorFilter] PolicyReduceScraperLogGroup line =
     (if contains ''Error'' line then [(''PolicyReduce/Scraper'', ''Error'', 1)] else [])
     @ (if contains ''Logging error'' line
        then [(''PolicyReduce/Scraper'', ''TotalRequeryError'', 1)] else [])
     @ (if contains ''Error creating eventbridge rule'' line
        then [(''PolicyReduce/Scraper'', ''PollCreationError'', 1)] else [])"
  by (simp add: emit_def filter_fields decimal_values)

lemma emit_nlp:
  "emit [PolicyReduceErrorFilter, PolicyReduceTotalRequeryErrorFilter,
         PolicyReducePollCreationErrorFilter] PolicyReduceNlpLogGroup line = []"
  by (simp add: emit_def filter_fields logGroups_differ)

text \<open>
  Claim C7, as the source has it. The application declares three metric filters, all on the
  log group of the scraper function, with the literal patterns \<open>Error\<close>,
  \<open>Logging error\<close> and \<open>Error creating eventbridge rule\<close>, the metrics \<open>Error\<close>,
  \<open>TotalRequeryError\<close> and \<open>PollCreationError\<close> and the metric value 1. A line of the
  scraper's log group adds 1 to the metric of each pattern it contains as a substring, and
  to no other; a line of the NLP function's log group adds to no metric, whatever it
  contains.
\<close>

theorem scraper_log_pattern_matchers:
  "map (\<lambda>f. (logGroupName (filter_logGroup f), filterPattern f, metricNamespace f,
              filter_metricName f, metricValue f))
       (metricFilters (policy_reduce_app e))
     = [(''PolicyReduceScraperLogGroup'', ''Error'', ''PolicyReduce/Scraper'', ''Error'', ''1''),
        (''PolicyReduceScraperLogGroup'', ''Logging error'', ''PolicyReduce/Scraper'',
         ''TotalRequeryError'', ''1''),
        (''PolicyReduceScraperLogGroup'', ''Error creating eventbridge rule'',
         ''PolicyReduce/Scraper'', ''PollCreationError'', ''1'')] \<and>
   contains p line = (\<exists>a b. line = a @ p @ b) \<and>
   emit (metricFilters (policy_reduce_app e))
        (logGroup (scraper_lambdaFunction (scraperStack (policy_reduce_app e)))) line
     = (if contains ''Error'' line then [(''PolicyReduce/Scraper'', ''Error'', 1)] else [])
       @ (if contains ''Logging error'' line
          then [(''PolicyReduce/Scraper'', ''TotalRequeryError'', 1)] else [])
       @ (if contains ''Error creating eventbridge rule'' line
          then [(''PolicyReduce/Scraper'', ''PollCreationError'', 1)] else []) \<and>
   emit (metricFilters (policy_reduce_app e))
        (logGroup (nlp_lambdaFunction (nlpStack (policy_reduce_app e)))) line = []"
proof -
  have 1: "map (\<lambda>f. (logGroupName (filter_logGroup f), filterPattern f, metricNamespace f,
              filter_metricName f, metricValue f))
       (metricFilters (policy_reduce_app e))
     = [(''PolicyReduceScraperLogGroup'', ''Error'', ''PolicyReduce/Scraper'', ''Error'', ''1''),
        (''PolicyReduceScraperLogGroup'', ''Logging error'', ''PolicyReduce/Scraper'',
         ''TotalRequeryError'', ''1''),
        (''PolicyReduceScraperLogGroup'', ''Error creating eventbridge rule'',
         ''PolicyReduce/Scraper'', ''PollCreationError'', ''1'')]"
    by (simp add: metricFilters_app filter_fields PolicyReduceScraperLogGroup_def)
  show ?thesis
    using 1 contains_iff [of p line] emit_scraper [of line] emit_nlp [of line]
    by (simp only: metricFilters_app app_functions function_logGroups)
qed

text \<open>
  Read for the log lines of both workers, claim C7 fails on the NLP worker: a line of its
  log group that is exactly \<open>Error\<close> contains the first pattern and adds nothing to the
  \<open>Error\<close> metric.
\<close>

theorem nlp_log_line_counterexample:
  "contains ''Error'' ''Error'' \<and>
   (''PolicyReduce/Scraper'', ''Error'', 1) \<notin> set
     (emit (metricFilters (policy_reduce_app \<lparr>account = ''0'', region = ''r''\<rparr>))
        (logGroup (nlp_lambdaFunction (nlpStack (policy_reduce_app \<lparr>account = ''0'', region = ''r''\<rparr>))))
        ''Error'')"
  by (simp add: metricFilters_app app_functions function_logGroups emit_nlp)

section \<open>Properties of the dead-letter queues\<close>

lemma deadLetterQueues_app:
  "deadLetterQueues (policy_reduce_app e) = [PolicyReduceScraperDLQ, nlpDLQ]"
  by (simp add: deadLetterQueues_def workQueues_app PolicyReduceScraperQueue_def nlpQueue_def)

lemma dead_letter_queue_config:
  "retentionPeriod PolicyReduceScraperDLQ = Some (Duration_days 14)"
  "retentionPeriod nlpDLQ = Some (Duration_days 14)"
  "deadLetterQueue PolicyReduceScraperDLQ = None"
  "deadLetterQueue nlpDLQ = None"
  by (simp_all add: PolicyReduceScraperDLQ_def nlpDLQ_def)

lemma work_queue_is_no_dead_letter_queue:
  "PolicyReduceScraperQueue \<noteq> PolicyReduceScraperDLQ" "PolicyReduceScraperQueue \<noteq> nlpDLQ"
  "nlpQueue \<noteq> PolicyReduceScraperDLQ" "nlpQueue \<noteq> nlpDLQ"
  by (simp_all add: PolicyReduceScraperQueue_def PolicyReduceScraperDLQ_def nlpQueue_def nlpDLQ_def)

lemma run_append: "run q (ops @ ops') s = run q ops' (run q ops s)"
  by (simp add: run_def)

lemma relocate_idem: "relocate m (relocate m s) = relocate m s"
  by (simp add: relocate_def)

lemma relocate_already: "message_id m \<in> message_id ` set (dead_letters s) \<Longrightarrow> relocate m s = s"
  by (simp add: relocate_def)

lemma dead_letter_stays:
  assumes "m \<in> set (dead_letters (run q ops empty_queue))"
  shows "m \<in> set (dead_letters (run q (ops @ ops') empty_queue)) \<and>
         message_id m \<notin> message_id ` set (messages (run q (ops @ ops') empty_queue)) \<and>
         (\<forall>now k. message_id m \<notin> message_id ` set (fst (receive q now k (run q (ops @ ops') empty_queue))))"
proof -
  let ?s = "run q (ops @ ops') empty_queue"
  obtain xs where "dead_letters ?s = dead_letters (run q ops empty_queue) @ xs"
    unfolding run_append using dead_letters_run by blast
  then have d: "m \<in> set (dead_letters ?s)" using assms by simp
  have wf: "well_formed q ?s" by (rule well_formed_reachable)
  have n: "message_id m \<notin> message_id ` set (messages ?s)"
    using well_formed_dead_not_in_source [OF wf d] .
  have "\<forall>now k. message_id m \<notin> message_id ` set (fst (receive q now k ?s))"
  proof (intro allI notI)
    fix now k
    assume "message_id m \<in> message_id ` set (fst (receive q now k ?s))"
    then obtain x where "x \<in> set (fst (receive q now k ?s))" and "message_id x = message_id m"
      by force
    then show False using batch_ids [of x q now k ?s] n by simp
  qed
  then show ?thesis using d n by blast
qed

text \<open>
  Claim C8. Both dead-letter queues are declared with a retention period of 14 days, have
  no dead-letter queue of their own, and are the source of no event source and the target
  of no schedule rule, so nothing the application declares reads from them. In the queue
  service no call removes or reorders a dead letter: each call leaves the dead letters of
  before as a prefix of those after. A message that is a dead letter in some reachable
  state is still one after any further calls, is absent from the source queue and is
  returned by no receive. Relocation is idempotent, and relocating a message that is
  already a dead letter changes nothing.
\<close>

theorem dead_letter_queue_append_only:
  assumes "q \<in> set (workQueues (policy_reduce_app e))"
  shows "map retentionPeriod (deadLetterQueues (policy_reduce_app e))
           = [Some (Duration_days 14), Some (Duration_days 14)] \<and>
    Duration_days 14 = 14 * 24 * 60 * 60 \<and>
    (\<exists>d. deadLetterQueue q = Some d \<and> queue d \<in> set (deadLetterQueues (policy_reduce_app e))) \<and>
    map deadLetterQueue (deadLetterQueues (policy_reduce_app e)) = [None, None] \<and>
    filter (\<lambda>es. source_queue es \<in> set (deadLetterQueues (policy_reduce_app e)))
           (eventSources (policy_reduce_app e)) = [] \<and>
    filter (\<lambda>t. target_queue t \<in> set (deadLetterQueues (policy_reduce_app e)))
           (concat (map targets (rules (policy_reduce_app e)))) = [] \<and>
    (\<exists>xs. dead_letters (step q op s) = dead_letters s @ xs) \<and>
    (\<forall>m. m \<in> set (dead_letters (run q ops empty_queue)) \<longrightarrow>
         m \<in> set (dead_letters (run q (ops @ ops') empty_queue)) \<and>
         message_id m \<notin> message_id ` set (messages (run q (ops @ ops') empty_queue)) \<and>
         (\<forall>now k. message_id m \<notin>
            message_id ` set (fst (receive q now k (run q (ops @ ops') empty_queue))))) \<and>
    relocate x (relocate x s) = relocate x s \<and>
    (message_id x \<in> message_id ` set (dead_letters s) \<longrightarrow> relocate x s = s)"
proof -
  let ?a = "policy_reduce_app e"
  have 1: "map retentionPeriod (deadLetterQueues ?a)
           = [Some (Duration_days 14), Some (Duration_days 14)]"
    by (simp add: deadLetterQueues_app dead_letter_queue_config)
  have 2: "Duration_days 14 = 14 * 24 * 60 * 60"
    by (simp add: Duration_days_def)
  have 3: "\<exists>d. deadLetterQueue q = Some d \<and> queue d \<in> set (deadLetterQueues ?a)"
    using assms
    by (auto simp: workQueues_app deadLetterQueues_app PolicyReduceScraperQueue_def nlpQueue_def)
  have 4: "map deadLetterQueue (deadLetterQueues ?a) = [None, None]"
    by (simp add: deadLetterQueues_app dead_letter_queue_config)
  have 5: "filter (\<lambda>es. source_queue es \<in> set (deadLetterQueues ?a)) (eventSources ?a) = []"
    by (simp add: deadLetterQueues_app eventSources_app work_queue_is_no_dead_letter_queue)
  have 6: "filter (\<lambda>t. target_queue t \<in> set (deadLetterQueues ?a))
             (concat (map targets (rules ?a))) = []"
    by (simp add: deadLetterQueues_app rules_def scraperRule_app PolicyReduceScraperRule_def
        work_queue_is_no_dead_letter_queue)
  have 7: "\<exists>xs. dead_letters (step q op s) = dead_letters s @ xs"
    by (rule dead_letters_step)
  have 8: "\<forall>m. m \<in> set (dead_letters (run q ops empty_queue)) \<longrightarrow>
         m \<in> set (dead_letters (run q (ops @ ops') empty_queue)) \<and>
         message_id m \<notin> message_id ` set (messages (run q (ops @ ops') empty_queue)) \<and>
         (\<forall>now k. message_id m \<notin>
            message_id ` set (fst (receive q now k (run q (ops @ ops') empty_queue))))"
    using dead_letter_stays by blast
  have 9: "relocate x (relocate x s) = relocate x s"
    by (rule relocate_idem)
  have 10: "message_id x \<in> message_id ` set (dead_letters s) \<longrightarrow> relocate x s = s"
    using relocate_already by blast
  show ?thesis
    using 1 2 3 4 5 6 7 8 9 10 by blast
qed

theorem dead_letter_queue_append_only_witness:
  "nlpQueue \<in> set (workQueues (policy_reduce_app \<lparr>account = ''0'', region = ''r''\<rparr>)) \<and>
   dead_letters (run nlpQueue
       [Enqueue 0 messagePayload, Receive 0 1, Receive 900 1, Receive 1800 1] empty_queue)
     = [\<lparr>message_id = 0, payload = messagePayload, enqueue_time = 0,
         delivery_count = 3, visibility_deadline = 1800\<rparr>] \<and>
   \<lparr>message_id = 0, payload = messagePayload, enqueue_time = 0,
     delivery_count = 3, visibility_deadline = 1800\<rparr>
     \<in> set (dead_letters (run nlpQueue
           ([Enqueue 0 messagePayload, Receive 0 1, Receive 900 1, Receive 1800 1]
            @ [Enqueue 2000 messagePayload, Receive 2000 1, Acknowledge 0 3]) empty_queue)) \<and>
   (0::nat) \<notin> message_id ` set (messages (run nlpQueue
           ([Enqueue 0 messagePayload, Receive 0 1, Receive 900 1, Receive 1800 1]
            @ [Enqueue 2000 messagePayload, Receive 2000 1, Acknowledge 0 3]) empty_queue)) \<and>
   relocate \<lparr>message_id = 0, payload = messagePayload, enqueue_time = 0,
              delivery_count = 3, visibility_deadline = 1800\<rparr>
     (run nlpQueue [Enqueue 0 messagePayload, Receive 0 1, Receive 900 1, Receive 1800 1]
        empty_queue)
     = run nlpQueue [Enqueue 0 messagePayload, Receive 0 1, Receive 900 1, Receive 1800 1]
        empty_queue"
proof -
  let ?e = "\<lparr>account = ''0'', region = ''r''\<rparr>"
  let ?m3 = "\<lparr>message_id = 0, payload = messagePayload, enqueue_time = 0,
              delivery_count = 3, visibility_deadline = 1800\<rparr>"
  let ?ops = "[Enqueue 0 messagePayload, Receive 0 1, Receive 900 1, Receive 1800 1]"
  let ?ops' = "[Enqueue 2000 messagePayload, Receive 2000 1, Acknowledge 0 3]"
  have q: "nlpQueue \<in> set (workQueues (policy_reduce_app ?e))"
    by (simp add: workQueues_app)
  have d: "dead_letters (run nlpQueue ?ops empty_queue) = [?m3]"
    by (simp add: nlp_unacknowledged_thrice)
  then have m: "?m3 \<in> set (dead_letters (run nlpQueue ?ops empty_queue))"
    by simp
  have i: "message_id ?m3 \<in> message_id ` set (dead_letters (run nlpQueue ?ops empty_queue))"
    unfolding d by simp
  note t = dead_letter_queue_append_only [OF q, where ops = ?ops and ops' = ?ops'
      and x = ?m3 and s = "run nlpQueue ?ops empty_queue"]
  have a: "?m3 \<in> set (dead_letters (run nlpQueue (?ops @ ?ops') empty_queue)) \<and>
           message_id ?m3 \<notin> message_id ` set (messages (run nlpQueue (?ops @ ?ops') empty_queue))"
    using t m by blast
  have b: "relocate ?m3 (run nlpQueue ?ops empty_queue) = run nlpQueue ?ops empty_queue"
    using t i by blast
  show ?thesis
    using q d a b by simp
qed

section \<open>When a message is settled\<close>














end
